theory Spec2Isabelle
  imports Complex_Main "HOL-Library.Sublist" "HOL-Library.Multiset"
    "HOL-Library.Char_ord" "HOL-Library.List_Lexorder"
begin

section \<open>Python values the notebook computes with\<close>

text \<open>
  The notebook \<^verbatim>\<open>sagemaker-churn-lab-archived.ipynb\<close> is a sequence of Python cells.
  An exception a cell can raise is a value of \<open>error\<close>; a computation that can raise
  returns \<open>error + 'a\<close> with \<open>Inl\<close> for the exception.
\<close>

datatype error =
    ValueError
  | IndexError
  | KeyError
  | ClientError string
  | WaiterError string
  | ParserError string

subsection \<open>Strings\<close>

text \<open>
  \<open>contains sub s\<close> is Python's \<^verbatim>\<open>sub in s\<close>: \<open>sub\<close> occurs in \<open>s\<close> as a contiguous
  substring.
\<close>

fun contains :: "string \<Rightarrow> string \<Rightarrow> bool" where
  "contains sub [] = (sub = [])"
| "contains sub (c # cs) = (prefix sub (c # cs) \<or> contains sub cs)"

text \<open>
  \<^verbatim>\<open>s.replace(old, new)\<close>: every occurrence of \<open>old\<close> found by one scan from the left,
  occurrences not overlapping, is replaced; the replaced text is not scanned again. For
  an empty \<open>old\<close> Python puts \<open>new\<close> before every character and at the end.
\<close>

function replace :: "string \<Rightarrow> string \<Rightarrow> string \<Rightarrow> string" where
  "replace old new s =
     (if old = [] then new @ concat (map (\<lambda>c. c # new) s)
      else case s of
        [] \<Rightarrow> []
      | c # cs \<Rightarrow>
          if prefix old s then new @ replace old new (drop (length old) s)
          else c # replace old new cs)"
  by pat_completeness auto
termination
  by (relation "measure (\<lambda>(old, new, s). length s)") auto

text \<open>
  \<^verbatim>\<open>s.split(sep)\<close> for a non-empty separator: the fields between the occurrences of
  \<open>sep\<close>, found from the left; there is always at least one field. Python raises
  ValueError for an empty separator.
\<close>

function split_fields :: "string \<Rightarrow> string \<Rightarrow> string list" where
  "split_fields sep s =
     (case s of
        [] \<Rightarrow> [[]]
      | c # cs \<Rightarrow>
          if sep \<noteq> [] \<and> prefix sep s then [] # split_fields sep (drop (length sep) s)
          else (case split_fields sep cs of
                  [] \<Rightarrow> [[c]]
                | f # fs \<Rightarrow> (c # f) # fs))"
  by pat_completeness auto
termination
  by (relation "measure (\<lambda>(sep, s). length s)") auto

definition split :: "string \<Rightarrow> string \<Rightarrow> error + string list" where
  "split s sep = (if sep = [] then Inl ValueError else Inr (split_fields sep s))"

text \<open>\<^verbatim>\<open>sep.join(parts)\<close>.\<close>

fun join :: "string \<Rightarrow> string list \<Rightarrow> string" where
  "join sep [] = []"
| "join sep [x] = x"
| "join sep (x # y # ys) = x @ sep @ join sep (y # ys)"

subsection \<open>Cell 22: \<^verbatim>\<open>split_s3_path\<close>\<close>

text \<open>
  \<^verbatim>\<open>
  def split_s3_path(s3_path):
      path_parts=s3_path.replace("s3://","").split("/")
      bucket=path_parts.pop(0)
      key="/".join(path_parts)
      return bucket, key
  \<close>
  \<^verbatim>\<open>pop(0)\<close> raises IndexError on an empty list.
\<close>

definition split_s3_path :: "string \<Rightarrow> error + (string \<times> string)" where
  "split_s3_path s3_path =
     (case split (replace ''s3://'' '''' s3_path) ''/'' of
        Inl e \<Rightarrow> Inl e
      | Inr path_parts \<Rightarrow>
          (case path_parts of
             [] \<Rightarrow> Inl IndexError
           | bucket # rest \<Rightarrow> Inr (bucket, join ''/'' rest)))"

section \<open>Data frames\<close>

text \<open>
  A pandas cell value is text (dtype object), an integer (int64), a floating-point number
  (float64, held as the rational it denotes) or missing (None, NaN). These are the kinds
  of value the churn data set has. A \<open>DataFrame\<close> has column labels, row labels (the
  index) and rows of cells; a \<open>Series\<close> is one labelled column. Row labels are the
  integers of the default index that \<^verbatim>\<open>pd.read_csv\<close> and \<^verbatim>\<open>pd.DataFrame\<close> assign
  and that \<^verbatim>\<open>sample\<close> and \<^verbatim>\<open>drop\<close> carry along.
\<close>

datatype cell = Text string | Integer int | Floating rat | Missing

record DataFrame =
  columns :: "cell list"
  index :: "nat list"
  rows :: "cell list list"

record Series =
  labels :: "nat list"
  vals :: "cell list"

text \<open>
  What numpy and the Python runtime supply and this repository does not define:
  \<open>permutation np seed n\<close> is \<^verbatim>\<open>numpy.random.RandomState(seed).permutation(n)\<close>,
  \<open>os_entropy\<close> the seed numpy draws from the operating system when none is given,
  \<open>float_repr\<close> the text Python prints for a float, \<open>read_csv_rows\<close> the typed rows
  that \<^verbatim>\<open>pd.read_csv(..., header=None)\<close> parses from a text (or the exception it
  raises).
\<close>

record library =
  permutation :: "nat \<Rightarrow> nat \<Rightarrow> nat list"
  os_entropy :: nat
  float_repr :: "rat \<Rightarrow> string"
  read_csv_rows :: "string \<Rightarrow> error + cell list list"

text \<open>
  Python's \<^verbatim>\<open>round\<close>: to the nearest integer, a tie to the even neighbour. The float
  \<^verbatim>\<open>0.8\<close> is modelled by the rational 4/5; \<^verbatim>\<open>0.8 * n\<close> is never within 1/10 of a
  tie, so the float's rounding error does not change the result for any length a frame
  can have.
\<close>

definition round_half_even :: "rat \<Rightarrow> int" where
  "round_half_even q =
     (let f = \<lfloor>q\<rfloor>; d = q - of_int f
      in if d < 1 / 2 then f
         else if 1 / 2 < d then f + 1
         else if even f then f else f + 1)"

text \<open>\<^verbatim>\<open>df.take(locs)\<close>: the rows at the given positions, in the given order.\<close>

definition take_rows :: "DataFrame \<Rightarrow> nat list \<Rightarrow> error + DataFrame" where
  "take_rows df locs =
     (if \<forall>i \<in> set locs. i < length (rows df) \<and> i < length (index df)
      then Inr (df\<lparr>index := map (\<lambda>i. index df ! i) locs, rows := map (\<lambda>i. rows df ! i) locs\<rparr>)
      else Inl IndexError)"

text \<open>
  \<^verbatim>\<open>df.sample(frac=fraction, random_state=random_state)\<close>: pandas computes
  \<^verbatim>\<open>size = round(frac * len(df))\<close>, draws
  \<^verbatim>\<open>RandomState(seed).choice(len(df), size=size, replace=False)\<close>, which numpy computes
  as \<^verbatim>\<open>permutation(len(df))[:size]\<close>, and takes the rows at these positions.
\<close>

definition sample :: "library \<Rightarrow> DataFrame \<Rightarrow> rat \<Rightarrow> nat option \<Rightarrow> error + DataFrame" where
  "sample np df fraction random_state =
     (let obj_len = length (rows df);
          size = nat (round_half_even (fraction * of_nat obj_len));
          seed = (case random_state of Some s \<Rightarrow> s | None \<Rightarrow> os_entropy np)
      in if obj_len < size then Inl ValueError
         else take_rows df (take size (permutation np seed obj_len)))"

text \<open>
  \<^verbatim>\<open>df.drop(labels)\<close> removes every row whose label is among \<open>ls\<close>, and raises KeyError
  when one of \<open>ls\<close> is not a label of the frame;
  \<^verbatim>\<open>df.drop(columns=cs)\<close> (also written \<^verbatim>\<open>df.drop(c, axis=1)\<close>) does the same for
  columns.
\<close>

definition drop_index :: "DataFrame \<Rightarrow> nat list \<Rightarrow> error + DataFrame" where
  "drop_index df ls =
     (if \<exists>l \<in> set ls. l \<notin> set (index df) then Inl KeyError
      else let keep = filter (\<lambda>(l, r). l \<notin> set ls) (zip (index df) (rows df))
           in Inr (df\<lparr>index := map fst keep, rows := map snd keep\<rparr>))"

definition drop_columns :: "DataFrame \<Rightarrow> cell list \<Rightarrow> error + DataFrame" where
  "drop_columns df cs =
     (if \<exists>c \<in> set cs. c \<notin> set (columns df) then Inl KeyError
      else Inr (df\<lparr>columns := filter (\<lambda>c. c \<notin> set cs) (columns df),
                   rows := map (\<lambda>r. map snd (filter (\<lambda>(c, v). c \<notin> set cs) (zip (columns df) r)))
                             (rows df)\<rparr>))"

text \<open>Decimal text of an integer, as \<^verbatim>\<open>str\<close> gives it.\<close>

function str_nat :: "nat \<Rightarrow> string" where
  "str_nat n =
     (if n < 10 then [''0123456789'' ! n]
      else str_nat (n div 10) @ [''0123456789'' ! (n mod 10)])"
  by pat_completeness auto
termination
  by (relation "measure id") auto

definition str_int :: "int \<Rightarrow> string" where
  "str_int i = (if i < 0 then CHR ''-'' # str_nat (nat (- i)) else str_nat (nat i))"

text \<open>
  \<^verbatim>\<open>df.to_csv(sep=sep, index=index_flag, header=header)\<close>: one line per row, the
  fields joined by \<open>sep\<close>, every line ended by a line feed; with \<open>header\<close> a first line of
  column labels, with \<open>index_flag\<close> a first field holding the row label. A missing value
  is written as nothing. The quoting of fields that hold the separator, a quote or a
  line break is not modelled.
\<close>

definition render :: "library \<Rightarrow> cell \<Rightarrow> string" where
  "render py c =
     (case c of Text t \<Rightarrow> t | Integer i \<Rightarrow> str_int i | Floating q \<Rightarrow> float_repr py q | Missing \<Rightarrow> [])"

definition csv_line :: "string \<Rightarrow> string list \<Rightarrow> string" where
  "csv_line sep fs = join sep fs @ [CHR 0x0A]"

definition to_csv :: "library \<Rightarrow> DataFrame \<Rightarrow> string \<Rightarrow> bool \<Rightarrow> bool \<Rightarrow> string" where
  "to_csv py df sep index_flag header =
     concat
       ((if header
         then [csv_line sep ((if index_flag then [[]] else []) @ map (render py) (columns df))]
         else [])
        @ map (\<lambda>(l, r). csv_line sep ((if index_flag then [str_nat l] else []) @ map (render py) r))
            (zip (index df) (rows df)))"

text \<open>
  \<^verbatim>\<open>df.reset_index()\<close>: the old row labels become a first column, named \<^verbatim>\<open>index\<close>
  (\<^verbatim>\<open>level_0\<close> when that name is taken; ValueError when both are), and the rows are
  labelled anew from 0.
\<close>

definition reset_index :: "DataFrame \<Rightarrow> error + DataFrame" where
  "reset_index df =
     (let name = (if Text ''index'' \<in> set (columns df) then Text ''level_0'' else Text ''index'')
      in if name \<in> set (columns df) then Inl ValueError
         else Inr \<lparr>columns = name # columns df,
                   index = [0..<length (rows df)],
                   rows = map (\<lambda>(l, r). Integer (int l) # r) (zip (index df) (rows df))\<rparr>)"

text \<open>
  \<^verbatim>\<open>df[c]\<close>: the column labelled \<open>c\<close> as a series, KeyError when there is none. (For a
  label that several columns carry pandas returns a frame; the model takes the first,
  and the notebook's frames have distinct labels.)
\<close>

definition getitem :: "DataFrame \<Rightarrow> cell \<Rightarrow> error + Series" where
  "getitem df c =
     (if c \<notin> set (columns df) then Inl KeyError
      else let j = length (takeWhile (\<lambda>x. x \<noteq> c) (columns df))
           in Inr \<lparr>labels = index df,
                   vals = map (\<lambda>r. if j < length r then r ! j else Missing) (rows df)\<rparr>)"

text \<open>
  \<^verbatim>\<open>a == b\<close> on two series: pandas raises ValueError unless both carry the same
  labels, and compares element by element otherwise. A missing value equals nothing,
  numbers are compared by value, text by its characters, and text never equals a number.
  \<^verbatim>\<open>.sum()\<close> of the resulting truth values counts the true ones.
\<close>

fun cell_eq :: "cell \<Rightarrow> cell \<Rightarrow> bool" where
  "cell_eq (Text a) (Text b) = (a = b)"
| "cell_eq (Integer a) (Integer b) = (a = b)"
| "cell_eq (Integer a) (Floating b) = (of_int a = b)"
| "cell_eq (Floating a) (Integer b) = (a = of_int b)"
| "cell_eq (Floating a) (Floating b) = (a = b)"
| "cell_eq _ _ = False"

definition series_eq :: "Series \<Rightarrow> Series \<Rightarrow> error + bool list" where
  "series_eq a b =
     (if labels a \<noteq> labels b then Inl ValueError
      else Inr (map (\<lambda>(x, y). cell_eq x y) (zip (vals a) (vals b))))"

definition sum_bools :: "bool list \<Rightarrow> nat" where
  "sum_bools bs = length (filter (\<lambda>b. b) bs)"

text \<open>
  \<^verbatim>\<open>pd.DataFrame(rows)\<close> of a list of rows: columns labelled 0, 1, ... up to the
  longest row, shorter rows filled with missing values, rows labelled from 0.
\<close>

definition DataFrame_of_rows :: "cell list list \<Rightarrow> DataFrame" where
  "DataFrame_of_rows rs =
     (let w = fold max (map length rs) 0
      in \<lparr>columns = map (\<lambda>j. Integer (int j)) [0..<w],
          index = [0..<length rs],
          rows = map (\<lambda>r. r @ replicate (w - length r) Missing) rs\<rparr>)"

text \<open>
  \<^verbatim>\<open>CSVDeserializer\<close> of the SageMaker SDK: \<^verbatim>\<open>list(csv.reader(body.splitlines()))\<close>.
  \<^verbatim>\<open>splitlines\<close> cuts at line feeds and gives no empty last line; \<^verbatim>\<open>csv.reader\<close>
  gives the comma-separated fields of a line as text, and no field for an empty line.
  Line breaks other than the line feed and quoted fields are not modelled.
\<close>

definition splitlines :: "string \<Rightarrow> string list" where
  "splitlines s =
     (let ls = split_fields [CHR 0x0A] s in if last ls = [] then butlast ls else ls)"

definition csv_reader :: "string list \<Rightarrow> cell list list" where
  "csv_reader ls = map (\<lambda>l. if l = [] then [] else map Text (split_fields '','' l)) ls"

definition CSVDeserializer :: "string \<Rightarrow> cell list list" where
  "CSVDeserializer body = csv_reader (splitlines body)"

text \<open>
  The quotient of a count by a length, as numpy computes it: a float, and NaN (a missing
  value) for 0/0. The quotient is exact here; the float's rounding is not modelled.
\<close>

definition true_divide :: "nat \<Rightarrow> nat \<Rightarrow> cell" where
  "true_divide m n = (if n = 0 then Missing else Floating (of_nat m / of_nat n))"

section \<open>The remote services\<close>

text \<open>
  The notebook talks to AWS through three client objects, \<^verbatim>\<open>s3_client\<close>, \<^verbatim>\<open>session\<close>
  and \<^verbatim>\<open>sm\<close>; the last two are used but nowhere defined in the notebook, so they are
  parameters of the model. The records below are the parts of the requests and responses
  that the notebook builds or reads (nested dictionaries are flattened, the key names
  kept). A key the service may leave out of a response is an \<open>option\<close>; subscripting it
  when it is absent raises KeyError.
\<close>

record container =
  Image :: string
  ModelDataUrl :: string

record metric =
  MetricName :: string
  Value :: rat

record candidate =
  CandidateName :: string
  FinalAutoMLJobObjectiveMetric :: "metric option"
  InferenceContainers :: "container list"

record artifacts =
  CandidateDefinitionNotebookLocation :: string
  DataExplorationNotebookLocation :: string

record describe_response =
  AutoMLJobStatus :: string
  AutoMLJobSecondaryStatus :: string
  AutoMLJobArtifacts :: "artifacts option"
  BestCandidate :: "candidate option"

record channel =
  S3DataType :: string
  S3Uri :: string
  TargetAttributeName :: string

record auto_ml_job_request =
  AutoMLJobName :: string
  InputDataConfig :: "channel list"
  S3OutputPath :: string
  MaxCandidates :: nat
  RoleArn :: string

record production_variant =
  InstanceType :: string
  InitialInstanceCount :: nat
  ModelName :: string
  VariantName :: string

text \<open>
  The operations of the services, with their arguments. The three delete operations are
  part of the SageMaker API; the notebook names them in its last markdown cell.
\<close>

datatype api_call =
    GetExecutionRole
  | ListBuckets
  | UploadData string string
  | CreateAutoMLJob auto_ml_job_request
  | DescribeAutoMLJob string
  | DownloadData string string string
  | ListCandidatesForAutoMLJob string
  | CreateModel "container list" string string
  | CreateEndpointConfig string "production_variant list"
  | CreateEndpoint string string
  | WaitEndpointInService string
  | InvokeEndpoint string string
  | DeleteEndpoint string
  | DeleteEndpointConfig string
  | DeleteModel string

text \<open>
  The world outside the notebook. The first argument of every operation is the number of
  remote calls the run has made before this one, so that the answer to the same request
  may change from call to call in any way; the answer is the response or the exception
  the client raises. \<open>strftime_gmtime\<close> is the clock, read as
  \<^verbatim>\<open>strftime('%d-%H-%M-%S', gmtime())\<close>; \<open>sagemaker_version\<close> is
  \<^verbatim>\<open>sagemaker.__version__\<close>.
\<close>

record env =
  get_execution_role :: "nat \<Rightarrow> error + string"
  list_buckets :: "nat \<Rightarrow> error + string list"
  upload_data :: "nat \<Rightarrow> string \<Rightarrow> string \<Rightarrow> error + string"
  download_data :: "nat \<Rightarrow> string \<Rightarrow> string \<Rightarrow> string \<Rightarrow> error + unit"
  create_auto_ml_job :: "nat \<Rightarrow> auto_ml_job_request \<Rightarrow> error + string"
  describe_auto_ml_job :: "nat \<Rightarrow> string \<Rightarrow> error + describe_response"
  list_candidates_for_auto_ml_job :: "nat \<Rightarrow> string \<Rightarrow> error + candidate list"
  create_model :: "nat \<Rightarrow> container list \<Rightarrow> string \<Rightarrow> string \<Rightarrow> error + string"
  create_endpoint_config :: "nat \<Rightarrow> string \<Rightarrow> production_variant list \<Rightarrow> error + string"
  create_endpoint :: "nat \<Rightarrow> string \<Rightarrow> string \<Rightarrow> error + string"
  wait_endpoint_in_service :: "nat \<Rightarrow> string \<Rightarrow> error + unit"
  invoke_endpoint :: "nat \<Rightarrow> string \<Rightarrow> string \<Rightarrow> error + string"
  strftime_gmtime :: "nat \<Rightarrow> string"
  sagemaker_version :: string
  py :: library

section \<open>Running cells\<close>

text \<open>
  A run leaves a log of what it did to the world: the remote calls, each with the
  exception it raised if it raised one, the sleeps, and the files written. Console
  output is not part of the model; the subscripts evaluated for a \<^verbatim>\<open>print\<close> are, since
  they can raise.

  The cells run in their order, as \<^verbatim>\<open>Run All\<close> runs them, which stops at the first
  exception. A piece of notebook code is a function from the state of the run to an
  outcome and the new state. The outcome is a value, an exception that nothing catches
  (the notebook has no \<^verbatim>\<open>try\<close>), or \<open>Running\<close>: the polling loop of cell 19 may go
  on for ever, so it is run for a given number of iterations, and \<open>Running\<close> says that
  it has not left the loop by then.
\<close>

datatype event =
    Call api_call "error option"
  | Slept nat
  | Wrote string string

record state =
  log :: "event list"
  clock :: nat

datatype 'a result = Ok 'a | Raise error | Running

type_synonym 'a script = "state \<Rightarrow> 'a result \<times> state"

definition return :: "'a \<Rightarrow> 'a script" where
  "return x = (\<lambda>s. (Ok x, s))"

definition seq :: "'a script \<Rightarrow> ('a \<Rightarrow> 'b script) \<Rightarrow> 'b script" where
  "seq m f =
     (\<lambda>s. case m s of
        (Ok x, s') \<Rightarrow> f x s'
      | (Raise e, s') \<Rightarrow> (Raise e, s')
      | (Running, s') \<Rightarrow> (Running, s'))"

definition lift :: "error + 'a \<Rightarrow> 'a script" where
  "lift r = (\<lambda>s. case r of Inl e \<Rightarrow> (Raise e, s) | Inr x \<Rightarrow> (Ok x, s))"

definition remote :: "api_call \<Rightarrow> (nat \<Rightarrow> error + 'a) \<Rightarrow> 'a script" where
  "remote c answer =
     (\<lambda>s. case answer (clock s) of
        Inl e \<Rightarrow> (Raise e, \<lparr>log = log s @ [Call c (Some e)], clock = Suc (clock s)\<rparr>)
      | Inr x \<Rightarrow> (Ok x, \<lparr>log = log s @ [Call c None], clock = Suc (clock s)\<rparr>))"

definition sleep :: "nat \<Rightarrow> unit script" where
  "sleep secs = (\<lambda>s. (Ok (), \<lparr>log = log s @ [Slept secs], clock = clock s\<rparr>))"

definition write_file :: "string \<Rightarrow> string \<Rightarrow> unit script" where
  "write_file path text = (\<lambda>s. (Ok (), \<lparr>log = log s @ [Wrote path text], clock = clock s\<rparr>))"

definition gmtime_stamp :: "env \<Rightarrow> string script" where
  "gmtime_stamp aws = (\<lambda>s. (Ok (strftime_gmtime aws (clock s)), s))"

definition and_then :: "error + 'a \<Rightarrow> ('a \<Rightarrow> error + 'b) \<Rightarrow> error + 'b" where
  "and_then r f = (case r of Inl e \<Rightarrow> Inl e | Inr x \<Rightarrow> f x)"

section \<open>The notebook, cell by cell\<close>

text \<open>
  Each code cell is a definition named after its position in the notebook (cell 0 is the
  first markdown cell); the variables a cell binds for later cells are its result. The
  data set \<open>churn\<close> is the frame that cells 5 and 6 load with \<^verbatim>\<open>wget\<close> and
  \<^verbatim>\<open>pd.read_csv\<close>; it is a parameter. Cell 17 (\<^verbatim>\<open>%store\<close>) and cell 34 (the metrics of
  scikit-learn) make no remote call and are not modelled. The markdown cells 36 and 38,
  which hold the clean-up code, are not code and do not run.
\<close>

subsection \<open>Cell 1: role and bucket\<close>

text \<open>\<open>prefix_str\<close> is the notebook's variable \<^verbatim>\<open>prefix\<close>.\<close>

definition prefix_str :: string where
  "prefix_str = ''sagemaker/DEMO-xgboost-churn''"

definition cell_1 :: "env \<Rightarrow> (string \<times> string) script" where
  "cell_1 aws =
     seq (remote GetExecutionRole (get_execution_role aws)) (\<lambda>role.
     seq (remote ListBuckets (list_buckets aws)) (\<lambda>response.
     seq (lift (case filter (prefix ''sagemaker-lab'') response of
                  [] \<Rightarrow> Inl IndexError
                | bucket # _ \<Rightarrow> Inr bucket)) (\<lambda>bucket.
     return (role, bucket))))"

subsection \<open>Cell 9: the split\<close>

text \<open>
  \<^verbatim>\<open>
  train_data = churn.sample(frac=0.8,random_state=200)
  test_data = churn.drop(train_data.index)
  test_data_no_target = test_data.drop(columns=['Churn?'])
  \<close>
\<close>

definition cell_9 :: "env \<Rightarrow> DataFrame \<Rightarrow> (DataFrame \<times> DataFrame \<times> DataFrame) script" where
  "cell_9 aws churn =
     seq (lift (sample (py aws) churn (4 / 5) (Some 200))) (\<lambda>train_data.
     seq (lift (drop_index churn (index train_data))) (\<lambda>test_data.
     seq (lift (drop_columns test_data [Text ''Churn?''])) (\<lambda>test_data_no_target.
     return (train_data, test_data, test_data_no_target))))"

subsection \<open>Cell 11: the two files and their upload\<close>

text \<open>
  \<^verbatim>\<open>
  train_file = 'train_data.csv';
  train_data.to_csv(train_file, index=False, header=True)
  train_data_s3_path = session.upload_data(path=train_file, key_prefix=prefix + "/train")
  test_file = 'test_data.csv';
  test_data_no_target.to_csv(test_file, index=False, header=False)
  test_data_s3_path = session.upload_data(path=test_file, key_prefix=prefix + "/test")
  \<close>
\<close>

definition train_file :: string where
  "train_file = ''train_data.csv''"

definition test_file :: string where
  "test_file = ''test_data.csv''"

definition cell_11 :: "env \<Rightarrow> DataFrame \<Rightarrow> DataFrame \<Rightarrow> (string \<times> string) script" where
  "cell_11 aws train_data test_data_no_target =
     seq (write_file train_file (to_csv (py aws) train_data '','' False True)) (\<lambda>_.
     seq (remote (UploadData train_file (prefix_str @ ''/train''))
            (\<lambda>t. upload_data aws t train_file (prefix_str @ ''/train''))) (\<lambda>train_data_s3_path.
     seq (write_file test_file (to_csv (py aws) test_data_no_target '','' False False)) (\<lambda>_.
     seq (remote (UploadData test_file (prefix_str @ ''/test''))
            (\<lambda>t. upload_data aws t test_file (prefix_str @ ''/test''))) (\<lambda>test_data_s3_path.
     return (train_data_s3_path, test_data_s3_path)))))"

subsection \<open>Cells 13 and 16: the Autopilot job\<close>

definition input_data_config :: "string \<Rightarrow> channel list" where
  "input_data_config bucket =
     [\<lparr>S3DataType = ''S3Prefix'',
       S3Uri = ''s3://'' @ bucket @ ''/'' @ prefix_str @ ''/train'',
       TargetAttributeName = ''Churn?''\<rparr>]"

definition output_data_config :: "string \<Rightarrow> string" where
  "output_data_config bucket = ''s3://'' @ bucket @ ''/'' @ prefix_str @ ''/output''"

text \<open>
  \<^verbatim>\<open>
  timestamp_suffix = strftime('%d-%H-%M-%S', gmtime())
  auto_ml_job_name = 'automl-churn-' + timestamp_suffix
  sm.create_auto_ml_job(AutoMLJobName=auto_ml_job_name,
                        InputDataConfig=input_data_config,
                        OutputDataConfig=output_data_config,
                        AutoMLJobConfig={'CompletionCriteria': {'MaxCandidates': 20}},
                        RoleArn=role)
  \<close>
  The response of the call is bound to no variable.
\<close>

definition cell_16 :: "env \<Rightarrow> string \<Rightarrow> string \<Rightarrow> string script" where
  "cell_16 aws role bucket =
     seq (gmtime_stamp aws) (\<lambda>timestamp_suffix.
     let auto_ml_job_name = ''automl-churn-'' @ timestamp_suffix;
         request = \<lparr>AutoMLJobName = auto_ml_job_name,
                    InputDataConfig = input_data_config bucket,
                    S3OutputPath = output_data_config bucket,
                    MaxCandidates = 20,
                    RoleArn = role\<rparr>
     in seq (remote (CreateAutoMLJob request) (\<lambda>t. create_auto_ml_job aws t request)) (\<lambda>_.
        return auto_ml_job_name))"

subsection \<open>Cell 19: polling the job status\<close>

text \<open>
  \<^verbatim>\<open>
  describe_response = sm.describe_auto_ml_job(AutoMLJobName=auto_ml_job_name)
  job_run_status = describe_response['AutoMLJobStatus']
  while job_run_status not in ('Failed', 'Completed', 'Stopped'):
      describe_response = sm.describe_auto_ml_job(AutoMLJobName=auto_ml_job_name)
      job_run_status = describe_response['AutoMLJobStatus']
      sleep(30)
  \<close>
  \<open>while_loop\<close> is the loop, run for at most \<open>fuel\<close> iterations.
\<close>

definition describe :: "env \<Rightarrow> string \<Rightarrow> describe_response script" where
  "describe aws auto_ml_job_name =
     remote (DescribeAutoMLJob auto_ml_job_name) (\<lambda>t. describe_auto_ml_job aws t auto_ml_job_name)"

fun while_loop ::
  "env \<Rightarrow> string \<Rightarrow> nat \<Rightarrow> describe_response \<Rightarrow> string \<Rightarrow> (describe_response \<times> string) script"
where
  "while_loop aws auto_ml_job_name 0 describe_response job_run_status =
     (if job_run_status \<notin> set [''Failed'', ''Completed'', ''Stopped'']
      then (\<lambda>s. (Running, s))
      else return (describe_response, job_run_status))"
| "while_loop aws auto_ml_job_name (Suc fuel) describe_response job_run_status =
     (if job_run_status \<notin> set [''Failed'', ''Completed'', ''Stopped'']
      then seq (describe aws auto_ml_job_name) (\<lambda>describe_response.
           seq (sleep 30) (\<lambda>_.
           while_loop aws auto_ml_job_name fuel describe_response
             (AutoMLJobStatus describe_response)))
      else return (describe_response, job_run_status))"

definition cell_19 :: "env \<Rightarrow> string \<Rightarrow> nat \<Rightarrow> (describe_response \<times> string) script" where
  "cell_19 aws auto_ml_job_name fuel =
     seq (describe aws auto_ml_job_name) (\<lambda>describe_response.
     while_loop aws auto_ml_job_name fuel describe_response (AutoMLJobStatus describe_response))"

subsection \<open>Cells 21 and 22: the generated notebooks\<close>

definition cell_21 :: "describe_response \<Rightarrow> (string \<times> string) script" where
  "cell_21 describe_response =
     lift (case AutoMLJobArtifacts describe_response of
             None \<Rightarrow> Inl KeyError
           | Some a \<Rightarrow>
               Inr (CandidateDefinitionNotebookLocation a, DataExplorationNotebookLocation a))"

definition cell_22 :: "env \<Rightarrow> string \<Rightarrow> string \<Rightarrow> unit script" where
  "cell_22 aws candidate_nbk data_explore_nbk =
     seq (lift (split_s3_path candidate_nbk)) (\<lambda>(s3_bucket, candidate_nbk_key).
     seq (lift (split_s3_path data_explore_nbk)) (\<lambda>(_, data_explore_nbk_key).
     seq (remote (DownloadData ''./'' s3_bucket candidate_nbk_key)
            (\<lambda>t. download_data aws t ''./'' s3_bucket candidate_nbk_key)) (\<lambda>_.
     remote (DownloadData ''./'' s3_bucket data_explore_nbk_key)
       (\<lambda>t. download_data aws t ''./'' s3_bucket data_explore_nbk_key))))"

subsection \<open>Cells 24, 27 and 28: the candidates\<close>

definition cell_24 :: "env \<Rightarrow> string \<Rightarrow> (candidate \<times> string) script" where
  "cell_24 aws auto_ml_job_name =
     seq (describe aws auto_ml_job_name) (\<lambda>response.
     seq (lift (case BestCandidate response of None \<Rightarrow> Inl KeyError | Some c \<Rightarrow> Inr c))
       (\<lambda>best_candidate.
     seq (lift (case FinalAutoMLJobObjectiveMetric best_candidate of
                  None \<Rightarrow> Inl KeyError
                | Some m \<Rightarrow> Inr m)) (\<lambda>_.
     return (best_candidate, CandidateName best_candidate))))"

definition cell_27 :: "env \<Rightarrow> string \<Rightarrow> candidate list script" where
  "cell_27 aws auto_ml_job_name =
     remote (ListCandidatesForAutoMLJob auto_ml_job_name)
       (\<lambda>t. list_candidates_for_auto_ml_job aws t auto_ml_job_name)"

text \<open>
  \<^verbatim>\<open>
  for item in sm_dict['Candidates']:
      print(item['CandidateName'], item['FinalAutoMLJobObjectiveMetric'])
      print(item['InferenceContainers'][1]['Image'], "\n")
  \<close>
\<close>

fun cell_28 :: "candidate list \<Rightarrow> error + unit" where
  "cell_28 [] = Inr ()"
| "cell_28 (item # items) =
     (case FinalAutoMLJobObjectiveMetric item of
        None \<Rightarrow> Inl KeyError
      | Some _ \<Rightarrow>
          if length (InferenceContainers item) < 2 then Inl IndexError else cell_28 items)"

subsection \<open>Cells 30 and 31: hosting\<close>

text \<open>
  \<^verbatim>\<open>
  timestamp_suffix = strftime('%d-%H-%M-%S', gmtime())
  model_name = best_candidate_name + timestamp_suffix + "-model"
  model_arn = sm.create_model(Containers=best_candidate['InferenceContainers'],
                              ModelName=model_name, ExecutionRoleArn=role)
  epc_name = best_candidate_name + timestamp_suffix + "-epc"
  ep_config = sm.create_endpoint_config(EndpointConfigName = epc_name,
                  ProductionVariants=[{'InstanceType': 'ml.m5.2xlarge',
                                       'InitialInstanceCount': 1,
                                       'ModelName': model_name,
                                       'VariantName': 'main'}])
  ep_name = best_candidate_name + timestamp_suffix + "-ep"
  create_endpoint_response = sm.create_endpoint(EndpointName=ep_name,
                                                EndpointConfigName=epc_name)
  \<close>
\<close>

definition production_variants :: "string \<Rightarrow> production_variant list" where
  "production_variants model_name =
     [\<lparr>InstanceType = ''ml.m5.2xlarge'', InitialInstanceCount = 1,
       ModelName = model_name, VariantName = ''main''\<rparr>]"

definition cell_30 :: "env \<Rightarrow> string \<Rightarrow> candidate \<Rightarrow> string \<Rightarrow> (string \<times> string \<times> string) script"
where
  "cell_30 aws role best_candidate best_candidate_name =
     seq (gmtime_stamp aws) (\<lambda>timestamp_suffix.
     let model_name = best_candidate_name @ timestamp_suffix @ ''-model'' in
     seq (remote (CreateModel (InferenceContainers best_candidate) model_name role)
            (\<lambda>t. create_model aws t (InferenceContainers best_candidate) model_name role))
       (\<lambda>model_arn.
     let epc_name = best_candidate_name @ timestamp_suffix @ ''-epc'' in
     seq (remote (CreateEndpointConfig epc_name (production_variants model_name))
            (\<lambda>t. create_endpoint_config aws t epc_name (production_variants model_name)))
       (\<lambda>ep_config.
     let ep_name = best_candidate_name @ timestamp_suffix @ ''-ep'' in
     seq (remote (CreateEndpoint ep_name epc_name) (\<lambda>t. create_endpoint aws t ep_name epc_name))
       (\<lambda>create_endpoint_response.
     return (model_name, epc_name, ep_name)))))"

text \<open>\<^verbatim>\<open>sm.get_waiter('endpoint_in_service').wait(EndpointName=ep_name)\<close>\<close>

definition cell_31 :: "env \<Rightarrow> string \<Rightarrow> unit script" where
  "cell_31 aws ep_name =
     remote (WaitEndpointInService ep_name) (\<lambda>t. wait_endpoint_in_service aws t ep_name)"

subsection \<open>Cell 33: inference and accuracy\<close>

text \<open>
  Both branches of the version test drop the target column, send
  \<^verbatim>\<open>test_data_inference.to_csv(sep=',', header=False, index=False)\<close> to the endpoint
  and compute
  \<^verbatim>\<open>
  accuracy = (test_data.reset_index()['Churn?'] == prediction_df[0]).sum() / len(test_data_inference)
  \<close>
  They differ in how the response becomes \<^verbatim>\<open>prediction_df\<close>: with an SDK older than
  version 2 through \<^verbatim>\<open>pd.read_csv(StringIO(prediction), header=None)\<close>, otherwise
  through \<^verbatim>\<open>CSVDeserializer\<close> and \<^verbatim>\<open>pd.DataFrame\<close>. The two predictor classes send
  the text as it is; each takes a string.
\<close>

definition read_csv :: "library \<Rightarrow> string \<Rightarrow> error + DataFrame" where
  "read_csv lib text = and_then (read_csv_rows lib text) (\<lambda>rs. Inr (DataFrame_of_rows rs))"

definition accuracy_of :: "DataFrame \<Rightarrow> DataFrame \<Rightarrow> DataFrame \<Rightarrow> error + cell" where
  "accuracy_of test_data prediction_df test_data_inference =
     and_then (reset_index test_data) (\<lambda>reindexed.
     and_then (getitem reindexed (Text ''Churn?'')) (\<lambda>truth.
     and_then (getitem prediction_df (Integer 0)) (\<lambda>predicted.
     and_then (series_eq truth predicted) (\<lambda>hits.
     Inr (true_divide (sum_bools hits) (length (rows test_data_inference)))))))"

definition predict :: "env \<Rightarrow> string \<Rightarrow> string \<Rightarrow> string script" where
  "predict aws ep_name body =
     remote (InvokeEndpoint ep_name body) (\<lambda>t. invoke_endpoint aws t ep_name body)"

definition cell_33 :: "env \<Rightarrow> string \<Rightarrow> DataFrame \<Rightarrow> cell script" where
  "cell_33 aws ep_name test_data =
     (if sagemaker_version aws < ''2''
      then
        seq (lift (drop_columns test_data [Text ''Churn?''])) (\<lambda>test_data_inference.
        seq (predict aws ep_name (to_csv (py aws) test_data_inference '','' False False))
          (\<lambda>prediction.
        seq (lift (read_csv (py aws) prediction)) (\<lambda>prediction_df.
        lift (accuracy_of test_data prediction_df test_data_inference))))
      else
        seq (lift (drop_columns test_data [Text ''Churn?''])) (\<lambda>test_data_inference.
        seq (predict aws ep_name (to_csv (py aws) test_data_inference '','' False False))
          (\<lambda>body.
        let prediction = CSVDeserializer body;
            prediction_df = DataFrame_of_rows prediction
        in lift (accuracy_of test_data prediction_df test_data_inference))))"

subsection \<open>The whole notebook\<close>

text \<open>
  The cells in the order of the notebook, in three parts: cells 30 to 33 (the sections
  Host and Evaluate), before them cells 19 to 28 (tracking the job and reading its
  results), and before those cells 1 to 16.
\<close>

definition host_and_evaluate :: "env \<Rightarrow> string \<Rightarrow> candidate \<Rightarrow> string \<Rightarrow> DataFrame \<Rightarrow> cell script"
where
  "host_and_evaluate aws role best_candidate best_candidate_name test_data =
     seq (cell_30 aws role best_candidate best_candidate_name) (\<lambda>(model_name, epc_name, ep_name).
     seq (cell_31 aws ep_name) (\<lambda>_.
     cell_33 aws ep_name test_data))"

definition track_and_host :: "env \<Rightarrow> string \<Rightarrow> string \<Rightarrow> DataFrame \<Rightarrow> nat \<Rightarrow> cell script" where
  "track_and_host aws role auto_ml_job_name test_data fuel =
     seq (cell_19 aws auto_ml_job_name fuel) (\<lambda>(describe_response, job_run_status).
     seq (cell_21 describe_response) (\<lambda>(candidate_nbk, data_explore_nbk).
     seq (cell_22 aws candidate_nbk data_explore_nbk) (\<lambda>_.
     seq (cell_24 aws auto_ml_job_name) (\<lambda>(best_candidate, best_candidate_name).
     seq (cell_27 aws auto_ml_job_name) (\<lambda>sm_dict.
     seq (lift (cell_28 sm_dict)) (\<lambda>_.
     host_and_evaluate aws role best_candidate best_candidate_name test_data))))))"

definition notebook :: "env \<Rightarrow> DataFrame \<Rightarrow> nat \<Rightarrow> cell script" where
  "notebook aws churn fuel =
     seq (cell_1 aws) (\<lambda>(role, bucket).
     seq (cell_9 aws churn) (\<lambda>(train_data, test_data, test_data_no_target).
     seq (cell_11 aws train_data test_data_no_target) (\<lambda>_.
     seq (cell_16 aws role bucket) (\<lambda>auto_ml_job_name.
     track_and_host aws role auto_ml_job_name test_data fuel))))"

definition start :: state where
  "start = \<lparr>log = [], clock = 0\<rparr>"

section \<open>Observing runs\<close>

text \<open>
  The remote calls of a log in their order, the delete operations, and the operations of
  hosting and inference.
\<close>

definition calls :: "event list \<Rightarrow> api_call list" where
  "calls evs = concat (map (\<lambda>ev. case ev of Call c r \<Rightarrow> [c] | _ \<Rightarrow> []) evs)"

fun is_delete :: "api_call \<Rightarrow> bool" where
  "is_delete (DeleteEndpoint _) = True"
| "is_delete (DeleteEndpointConfig _) = True"
| "is_delete (DeleteModel _) = True"
| "is_delete _ = False"

fun is_hosting :: "api_call \<Rightarrow> bool" where
  "is_hosting (CreateModel _ _ _) = True"
| "is_hosting (CreateEndpointConfig _ _) = True"
| "is_hosting (CreateEndpoint _ _) = True"
| "is_hosting (WaitEndpointInService _) = True"
| "is_hosting (InvokeEndpoint _ _) = True"
| "is_hosting _ = False"



text \<open>
  \<open>failed ev\<close>: the event is a remote call that raised. \<open>fail_stop res evs\<close>: among the
  events \<open>evs\<close> of a run with outcome \<open>res\<close> either no call raised, or exactly one did,
  it is the last event, and its exception is the outcome.
\<close>

fun failed :: "event \<Rightarrow> bool" where
  "failed (Call c (Some e)) = True"
| "failed _ = False"

definition fail_stop :: "'a result \<Rightarrow> event list \<Rightarrow> bool" where
  "fail_stop res evs \<longleftrightarrow>
     (\<forall>ev \<in> set evs. \<not> failed ev)
     \<or> (\<exists>c e evs0. evs = evs0 @ [Call c (Some e)] \<and> (\<forall>ev \<in> set evs0. \<not> failed ev) \<and> res = Raise e)"

text \<open>
  \<open>runs P Q m\<close>: from every state, \<open>m\<close> only adds events to the log, every remote call
  it makes satisfies \<open>P\<close>, the added events are fail-stop, and a value it ends with
  satisfies \<open>Q\<close>. \<open>ends_with B m\<close>: the events \<open>m\<close> adds and its outcome satisfy \<open>B\<close>.
  \<open>after P B\<close>: the events are some events whose calls satisfy \<open>P\<close>, followed either by
  nothing, the outcome then being no value, or by events that satisfy \<open>B\<close>.
  \<open>job_shape\<close>: the calls of a log begin with the creation of the job as cell 16
  requests it, and no later call creates a job or names another job.
\<close>

definition runs :: "(api_call \<Rightarrow> bool) \<Rightarrow> ('a \<Rightarrow> bool) \<Rightarrow> 'a script \<Rightarrow> bool" where
  "runs P Q m \<longleftrightarrow>
     (\<forall>s. \<exists>evs. log (snd (m s)) = log s @ evs
        \<and> (\<forall>c \<in> set (calls evs). P c)
        \<and> fail_stop (fst (m s)) evs
        \<and> (\<forall>x. fst (m s) = Ok x \<longrightarrow> Q x))"

definition ends_with :: "('a result \<Rightarrow> event list \<Rightarrow> bool) \<Rightarrow> 'a script \<Rightarrow> bool" where
  "ends_with B m \<longleftrightarrow> (\<forall>s. \<exists>evs. log (snd (m s)) = log s @ evs \<and> B (fst (m s)) evs)"

definition after ::
  "(api_call \<Rightarrow> bool) \<Rightarrow> ('a result \<Rightarrow> event list \<Rightarrow> bool) \<Rightarrow> 'a result \<Rightarrow> event list \<Rightarrow> bool"
where
  "after P B res evs \<longleftrightarrow>
     (\<exists>e1 e2. evs = e1 @ e2 \<and> (\<forall>c \<in> set (calls e1). P c)
        \<and> ((e2 = [] \<and> (\<forall>x. res \<noteq> Ok x)) \<or> B res e2))"


text \<open>
  The calls that cells 30 and 31 make when none of them fails, for a given best
  candidate, role and time stamp, and with the call of cell 33 after them.
  \<open>hosting_shape\<close>: the calls of a log are an initial part of that sequence, for the
  best candidate of some response of the service, and all of it if the outcome is a
  value.
\<close>

definition deployment_calls :: "candidate \<Rightarrow> string \<Rightarrow> string \<Rightarrow> api_call list" where
  "deployment_calls best_candidate role timestamp_suffix =
     (let model_name = CandidateName best_candidate @ timestamp_suffix @ ''-model'';
          epc_name = CandidateName best_candidate @ timestamp_suffix @ ''-epc'';
          ep_name = CandidateName best_candidate @ timestamp_suffix @ ''-ep''
      in [CreateModel (InferenceContainers best_candidate) model_name role,
          CreateEndpointConfig epc_name (production_variants model_name),
          CreateEndpoint ep_name epc_name,
          WaitEndpointInService ep_name])"

definition hosting_calls :: "candidate \<Rightarrow> string \<Rightarrow> string \<Rightarrow> string \<Rightarrow> api_call list" where
  "hosting_calls best_candidate role timestamp_suffix body =
     deployment_calls best_candidate role timestamp_suffix
     @ [InvokeEndpoint (CandidateName best_candidate @ timestamp_suffix @ ''-ep'') body]"

definition hosting_shape :: "env \<Rightarrow> 'a result \<Rightarrow> event list \<Rightarrow> bool" where
  "hosting_shape aws res evs \<longleftrightarrow>
     (\<exists>t name response best_candidate role timestamp_suffix body.
        describe_auto_ml_job aws t name = Inr response
      \<and> BestCandidate response = Some best_candidate
      \<and> prefix (calls evs) (hosting_calls best_candidate role timestamp_suffix body)
      \<and> (\<forall>x. res = Ok x \<longrightarrow>
            calls evs = hosting_calls best_candidate role timestamp_suffix body))"

text \<open>
  The hosting resources that exist after a log of calls, by the contract of the
  SageMaker API: a successful create call brings the named resource into existence, a
  successful delete call removes it, and nothing else does either.
\<close>

datatype resource = Model string | EndpointConfig string | Endpoint string

fun effect :: "event \<Rightarrow> resource set \<Rightarrow> resource set" where
  "effect (Call (CreateModel containers name role) None) R = insert (Model name) R"
| "effect (Call (CreateEndpointConfig name variants) None) R = insert (EndpointConfig name) R"
| "effect (Call (CreateEndpoint name config) None) R = insert (Endpoint name) R"
| "effect (Call (DeleteModel name) None) R = R - {Model name}"
| "effect (Call (DeleteEndpointConfig name) None) R = R - {EndpointConfig name}"
| "effect (Call (DeleteEndpoint name) None) R = R - {Endpoint name}"
| "effect _ R = R"

definition resources :: "event list \<Rightarrow> resource set" where
  "resources evs = fold effect evs {}"

section \<open>A small world to run the notebook in\<close>

text \<open>
  A data set of ten customers and a service that reports the job as in progress for the
  first seven calls and as completed afterwards. The responses are made up; the theorems
  below hold for every world, and this one shows that their hypotheses can be met.
\<close>

definition example_churn :: DataFrame where
  "example_churn =
     \<lparr>columns = [Text ''State'', Text ''CustServ Calls'', Text ''Churn?''],
      index = [0..<10],
      rows = [[Text ''KS'', Integer 1, Text ''False.''],
              [Text ''OH'', Integer 1, Text ''False.''],
              [Text ''NJ'', Integer 0, Text ''False.''],
              [Text ''OK'', Integer 2, Text ''True.''],
              [Text ''AL'', Integer 3, Text ''False.''],
              [Text ''MA'', Integer 0, Text ''False.''],
              [Text ''MO'', Integer 3, Text ''True.''],
              [Text ''LA'', Integer 0, Text ''False.''],
              [Text ''WV'', Integer 1, Text ''True.''],
              [Text ''IN'', Integer 0, Text ''False.'']]\<rparr>"

definition example_library :: library where
  "example_library =
     \<lparr>permutation = (\<lambda>seed n. if even seed then rev [0..<n] else [0..<n]),
      os_entropy = 7,
      float_repr = (\<lambda>q. ''1.5''),
      read_csv_rows = (\<lambda>text. Inr (CSVDeserializer text))\<rparr>"

definition example_candidate :: candidate where
  "example_candidate =
     \<lparr>CandidateName = ''tuning-job-1-007'',
      FinalAutoMLJobObjectiveMetric = Some \<lparr>MetricName = ''validation:f1'', Value = 9 / 10\<rparr>,
      InferenceContainers =
        [\<lparr>Image = ''sklearn-automl'', ModelDataUrl = ''s3://sagemaker-lab-1/dpp/model.tar.gz''\<rparr>,
         \<lparr>Image = ''xgboost'', ModelDataUrl = ''s3://sagemaker-lab-1/tuning/model.tar.gz''\<rparr>]\<rparr>"

definition in_progress :: describe_response where
  "in_progress =
     \<lparr>AutoMLJobStatus = ''InProgress'', AutoMLJobSecondaryStatus = ''AnalyzingData'',
      AutoMLJobArtifacts = None, BestCandidate = None\<rparr>"

definition completed :: describe_response where
  "completed =
     \<lparr>AutoMLJobStatus = ''Completed'', AutoMLJobSecondaryStatus = ''MaxCandidatesReached'',
      AutoMLJobArtifacts =
        Some \<lparr>CandidateDefinitionNotebookLocation = ''s3://sagemaker-lab-1/output/Candidate.ipynb'',
              DataExplorationNotebookLocation = ''s3://sagemaker-lab-1/output/Exploration.ipynb''\<rparr>,
      BestCandidate = Some example_candidate\<rparr>"

definition example_aws :: env where
  "example_aws =
     \<lparr>get_execution_role = (\<lambda>t. Inr ''arn:aws:iam::1:role/lab''),
      list_buckets = (\<lambda>t. Inr [''logs'', ''sagemaker-lab-1'']),
      upload_data = (\<lambda>t path key_prefix. Inr (''s3://sagemaker-us-west-2-1/'' @ key_prefix @ ''/'' @ path)),
      download_data = (\<lambda>t path bucket key_prefix. Inr ()),
      create_auto_ml_job = (\<lambda>t request. Inr (''arn:aws:sagemaker:automl-job/'' @ AutoMLJobName request)),
      describe_auto_ml_job = (\<lambda>t name. Inr (if t < 7 then in_progress else completed)),
      list_candidates_for_auto_ml_job = (\<lambda>t name. Inr [example_candidate]),
      create_model = (\<lambda>t containers name role. Inr (''arn:aws:sagemaker:model/'' @ name)),
      create_endpoint_config = (\<lambda>t name variants. Inr (''arn:aws:sagemaker:endpoint-config/'' @ name)),
      create_endpoint = (\<lambda>t name config. Inr (''arn:aws:sagemaker:endpoint/'' @ name)),
      wait_endpoint_in_service = (\<lambda>t name. Inr ()),
      invoke_endpoint = (\<lambda>t name body. Inr (''False.'' @ [CHR 0x0A] @ ''True.'' @ [CHR 0x0A])),
      strftime_gmtime = (\<lambda>t. ''02-10-00-00''),
      sagemaker_version = ''2.15.0'',
      py = example_library\<rparr>"


text \<open>The same world with a job that never leaves the status \<^verbatim>\<open>InProgress\<close>.\<close>

definition stuck_aws :: env where
  "stuck_aws = example_aws\<lparr>describe_auto_ml_job := (\<lambda>t name. Inr in_progress)\<rparr>"


text \<open>The same world with a service that refuses to create the job.\<close>

definition refusing_aws :: env where
  "refusing_aws =
     example_aws\<lparr>create_auto_ml_job := (\<lambda>t request. Inl (ClientError ''ResourceLimitExceeded''))\<rparr>"

section \<open>Properties of the string functions\<close>

declare replace.simps [simp del] split_fields.simps [simp del]

lemma contains_iff: "contains sub s \<longleftrightarrow> (\<exists>p q. s = p @ sub @ q)"
proof (induction s)
  case Nil
  then show ?case by auto
next
  case (Cons c cs)
  show ?case
  proof
    assume "contains sub (c # cs)"
    then consider "prefix sub (c # cs)" | "contains sub cs" by auto
    then show "\<exists>p q. c # cs = p @ sub @ q"
    proof cases
      case 1
      then obtain q where "c # cs = sub @ q" by (auto simp: prefix_def)
      then have "c # cs = [] @ sub @ q" by simp
      then show ?thesis by blast
    next
      case 2
      with Cons.IH obtain p q where "cs = p @ sub @ q" by blast
      then have "c # cs = (c # p) @ sub @ q" by simp
      then show ?thesis by blast
    qed
  next
    assume "\<exists>p q. c # cs = p @ sub @ q"
    then obtain p q where pq: "c # cs = p @ sub @ q" by blast
    show "contains sub (c # cs)"
    proof (cases p)
      case Nil
      with pq have "prefix sub (c # cs)" by (simp add: prefix_def)
      then show ?thesis by simp
    next
      case (Cons d p')
      with pq have "cs = p' @ sub @ q" by simp
      with Cons.IH have "contains sub cs" by blast
      then show ?thesis by simp
    qed
  qed
qed

lemma replace_Nil: "old \<noteq> [] \<Longrightarrow> replace old new [] = []"
  by (simp add: replace.simps)

lemma replace_Cons_match:
  "old \<noteq> [] \<Longrightarrow> prefix old (c # cs) \<Longrightarrow>
   replace old new (c # cs) = new @ replace old new (drop (length old) (c # cs))"
  by (subst replace.simps) simp

lemma replace_Cons_skip:
  "old \<noteq> [] \<Longrightarrow> \<not> prefix old (c # cs) \<Longrightarrow>
   replace old new (c # cs) = c # replace old new cs"
  by (subst replace.simps) simp

lemma replace_absent: "old \<noteq> [] \<Longrightarrow> \<not> contains old s \<Longrightarrow> replace old new s = s"
  by (induction s) (simp_all add: replace_Nil replace_Cons_skip)

lemma replace_leading: "old \<noteq> [] \<Longrightarrow> replace old new (old @ s) = new @ replace old new s"
  by (cases old) (simp_all add: replace_Cons_match)

lemma split_fields_Nil: "split_fields sep [] = [[]]"
  by (simp add: split_fields.simps)

lemma split_fields_nonempty: "split_fields sep s \<noteq> []"
  by (subst split_fields.simps) (simp split: list.splits)

lemma split_fields_char_hit: "split_fields [d] (d # cs) = [] # split_fields [d] cs"
  by (subst split_fields.simps) simp

lemma split_fields_char_miss:
  "c \<noteq> d \<Longrightarrow> split_fields [d] (c # cs) =
     (c # hd (split_fields [d] cs)) # tl (split_fields [d] cs)"
  using split_fields_nonempty [of "[d]" cs]
  by (subst split_fields.simps) (simp split: list.splits)

lemma split_fields_before_sep:
  "d \<notin> set b \<Longrightarrow> split_fields [d] (b @ d # k) = b # split_fields [d] k"
  by (induction b)
    (auto simp: split_fields_char_hit split_fields_char_miss split_fields_nonempty)

lemma join_Cons_Cons: "fs \<noteq> [] \<Longrightarrow> join sep (f # fs) = f @ sep @ join sep fs"
  by (cases fs) simp_all

lemma join_push: "join sep ((c # f) # fs) = c # join sep (f # fs)"
  by (cases fs) simp_all

lemma join_split_fields: "join [d] (split_fields [d] k) = k"
proof (induction k)
  case Nil
  show ?case by (simp add: split_fields_Nil)
next
  case (Cons c cs)
  show ?case
  proof (cases "c = d")
    case True
    then show ?thesis
      using Cons.IH by (simp add: split_fields_char_hit join_Cons_Cons split_fields_nonempty)
  next
    case False
    have "join [d] ((c # hd (split_fields [d] cs)) # tl (split_fields [d] cs)) =
          c # join [d] (hd (split_fields [d] cs) # tl (split_fields [d] cs))"
      by (rule join_push)
    also have "hd (split_fields [d] cs) # tl (split_fields [d] cs) = split_fields [d] cs"
      by (simp add: split_fields_nonempty)
    finally show ?thesis using False Cons.IH by (simp add: split_fields_char_miss)
  qed
qed

text \<open>
  The scheme \<^verbatim>\<open>s3://\<close> can begin inside a slash-free bucket name and run over the
  separating slash only in one way: the bucket name is \<^verbatim>\<open>s3:\<close> from there on and
  the key begins with a slash.
\<close>

lemma scheme_prefix_straddle:
  assumes "CHR ''/'' \<notin> set b" and "prefix ''s3://'' (b @ ''/'' @ k)"
  shows "b = ''s3:'' \<and> prefix ''/'' k"
proof -
  obtain c1 b1 where b: "b = c1 # b1" using assms by (cases b) auto
  obtain c2 b2 where b1: "b1 = c2 # b2" using assms b by (cases b1) auto
  obtain c3 b3 where b2: "b2 = c3 # b3" using assms b b1 by (cases b2) auto
  have b3: "b3 = []" using assms b b1 b2 by (cases b3) auto
  show ?thesis using assms b b1 b2 b3 by auto
qed

lemma contains_scheme_straddle:
  assumes "CHR ''/'' \<notin> set b" and "contains ''s3://'' (b @ ''/'' @ k)"
  shows "contains ''s3://'' b \<or> contains ''s3://'' k \<or> (suffix ''s3:'' b \<and> prefix ''/'' k)"
  using assms
proof (induction b)
  case Nil
  then show ?case by simp
next
  case (Cons c b)
  from Cons.prems(2)
  consider "prefix ''s3://'' ((c # b) @ ''/'' @ k)" | "contains ''s3://'' (b @ ''/'' @ k)"
    by auto
  then show ?case
  proof cases
    case 1
    from scheme_prefix_straddle [OF Cons.prems(1)] 1 show ?thesis
      by (auto simp: suffix_def)
  next
    case 2
    from Cons.prems(1) have "CHR ''/'' \<notin> set b" by simp
    from Cons.IH [OF this 2] show ?thesis by (auto simp: suffix_Cons)
  qed
qed

lemma split_s3_path_clean:
  assumes "CHR ''/'' \<notin> set b" and "\<not> contains ''s3://'' (b @ ''/'' @ k)"
  shows "split_s3_path (''s3://'' @ b @ ''/'' @ k) = Inr (b, k)"
proof -
  have "replace ''s3://'' '''' (''s3://'' @ b @ ''/'' @ k) = replace ''s3://'' '''' (b @ ''/'' @ k)"
    by (subst replace_leading) simp_all
  also have "\<dots> = b @ ''/'' @ k"
    using assms(2) by (intro replace_absent) simp_all
  finally have r: "replace ''s3://'' '''' (''s3://'' @ b @ ''/'' @ k) = b @ ''/'' @ k" .
  have "split_fields ''/'' (b @ ''/'' @ k) = b # split_fields ''/'' k"
    using split_fields_before_sep [OF assms(1), of k] by simp
  then show ?thesis
    unfolding split_s3_path_def r
    by (simp add: split_def join_split_fields)
qed

section \<open>Properties of the polling loop\<close>

lemma seq_apply:
  "seq m f s =
     (case m s of (Ok x, s') \<Rightarrow> f x s' | (Raise e, s') \<Rightarrow> (Raise e, s') | (Running, s') \<Rightarrow> (Running, s'))"
  by (simp add: seq_def)

lemma describe_apply:
  "describe aws name s =
     (case describe_auto_ml_job aws (clock s) name of
        Inl e \<Rightarrow> (Raise e, \<lparr>log = log s @ [Call (DescribeAutoMLJob name) (Some e)], clock = Suc (clock s)\<rparr>)
      | Inr x \<Rightarrow> (Ok x, \<lparr>log = log s @ [Call (DescribeAutoMLJob name) None], clock = Suc (clock s)\<rparr>))"
  by (simp add: describe_def remote_def)

lemma while_loop_terminal:
  "st \<in> set [''Failed'', ''Completed'', ''Stopped''] \<Longrightarrow>
   while_loop aws name fuel dr st s = (Ok (dr, st), s)"
  by (cases fuel) (simp_all add: return_def)

lemma while_loop_step:
  assumes "st \<notin> set [''Failed'', ''Completed'', ''Stopped'']"
    and "describe_auto_ml_job aws (clock s) name = Inr r"
  shows "while_loop aws name (Suc fuel) dr st s =
         while_loop aws name fuel r (AutoMLJobStatus r)
           (\<lparr>log = log s @ [Call (DescribeAutoMLJob name) None, Slept 30],
              clock = Suc (clock s)\<rparr>)"
  using assms by (simp add: seq_apply describe_apply sleep_def)

lemma while_loop_fail:
  assumes "st \<notin> set [''Failed'', ''Completed'', ''Stopped'']"
    and "describe_auto_ml_job aws (clock s) name = Inl e"
  shows "while_loop aws name (Suc fuel) dr st s =
         (Raise e, \<lparr>log = log s @ [Call (DescribeAutoMLJob name) (Some e)],
              clock = Suc (clock s)\<rparr>)"
  using assms by (simp add: seq_apply describe_apply sleep_def)

lemma while_loop_reaches:
  assumes ok: "\<forall>t. describe_auto_ml_job aws t name = Inr (r t)"
  shows "\<forall>j<k. AutoMLJobStatus (r (c + j)) \<notin> set [''Failed'', ''Completed'', ''Stopped'']
     \<Longrightarrow> AutoMLJobStatus (r (c + k)) \<in> set [''Failed'', ''Completed'', ''Stopped'']
     \<Longrightarrow> k \<le> fuel \<Longrightarrow> clock s = Suc c
     \<Longrightarrow> while_loop aws name fuel (r c) (AutoMLJobStatus (r c)) s =
          (Ok (r (c + k), AutoMLJobStatus (r (c + k))),
           \<lparr>log = log s @ concat (replicate k [Call (DescribeAutoMLJob name) None, Slept 30]),
              clock = Suc c + k\<rparr>)"
proof (induction k arbitrary: c fuel s)
  case 0
  then show ?case using while_loop_terminal [of "AutoMLJobStatus (r c)" aws name fuel "r c" s]
    by simp
next
  case (Suc k)
  from Suc.prems(3) obtain fuel' where fuel: "fuel = Suc fuel'" and le: "k \<le> fuel'"
    by (cases fuel) auto
  from Suc.prems(1) have now: "AutoMLJobStatus (r c) \<notin> set [''Failed'', ''Completed'', ''Stopped'']"
    by (metis add.right_neutral zero_less_Suc)
  from Suc.prems(1) have later:
    "\<forall>j<k. AutoMLJobStatus (r (Suc c + j)) \<notin> set [''Failed'', ''Completed'', ''Stopped'']"
    by (metis Suc_less_eq add_Suc_shift)
  from Suc.prems(2) have last:
    "AutoMLJobStatus (r (Suc c + k)) \<in> set [''Failed'', ''Completed'', ''Stopped'']"
    by simp
  let ?s1 = "\<lparr>log = log s @ [Call (DescribeAutoMLJob name) None, Slept 30], clock = Suc (clock s)\<rparr>"
  have d: "describe_auto_ml_job aws (clock s) name = Inr (r (Suc c))"
    using ok Suc.prems(4) by simp
  have "while_loop aws name fuel (r c) (AutoMLJobStatus (r c)) s =
        while_loop aws name fuel' (r (Suc c)) (AutoMLJobStatus (r (Suc c))) ?s1"
    unfolding fuel by (rule while_loop_step [OF now d])
  also have "\<dots> = (Ok (r (Suc c + k), AutoMLJobStatus (r (Suc c + k))),
           \<lparr>log = log ?s1 @ concat (replicate k [Call (DescribeAutoMLJob name) None, Slept 30]),
              clock = Suc (Suc c) + k\<rparr>)"
    by (rule Suc.IH [OF later last le]) (simp add: Suc.prems(4))
  finally show ?case by simp
qed

lemma while_loop_stuck:
  assumes ok: "\<forall>t. describe_auto_ml_job aws t name = Inr (r t)"
  shows "\<forall>j. AutoMLJobStatus (r (c + j)) \<notin> set [''Failed'', ''Completed'', ''Stopped'']
     \<Longrightarrow> clock s = Suc c
     \<Longrightarrow> while_loop aws name fuel (r c) (AutoMLJobStatus (r c)) s =
          (Running,
           \<lparr>log = log s @ concat (replicate fuel [Call (DescribeAutoMLJob name) None, Slept 30]),
              clock = Suc c + fuel\<rparr>)"
proof (induction fuel arbitrary: c s)
  case 0
  from 0(1) have "AutoMLJobStatus (r c) \<notin> set [''Failed'', ''Completed'', ''Stopped'']"
    by (metis add.right_neutral)
  then show ?case using 0(2) by simp
next
  case (Suc fuel)
  from Suc.prems(1) have now: "AutoMLJobStatus (r c) \<notin> set [''Failed'', ''Completed'', ''Stopped'']"
    by (metis add.right_neutral)
  from Suc.prems(1) have later:
    "\<forall>j. AutoMLJobStatus (r (Suc c + j)) \<notin> set [''Failed'', ''Completed'', ''Stopped'']"
    by (metis add_Suc_shift)
  let ?s1 = "\<lparr>log = log s @ [Call (DescribeAutoMLJob name) None, Slept 30], clock = Suc (clock s)\<rparr>"
  have d: "describe_auto_ml_job aws (clock s) name = Inr (r (Suc c))"
    using ok Suc.prems(2) by simp
  have "while_loop aws name (Suc fuel) (r c) (AutoMLJobStatus (r c)) s =
        while_loop aws name fuel (r (Suc c)) (AutoMLJobStatus (r (Suc c))) ?s1"
    by (rule while_loop_step [OF now d])
  also have "\<dots> = (Running,
           \<lparr>log = log ?s1 @ concat (replicate fuel [Call (DescribeAutoMLJob name) None, Slept 30]),
              clock = Suc (Suc c) + fuel\<rparr>)"
    by (rule Suc.IH [OF later]) (simp add: Suc.prems(2))
  finally show ?case by simp
qed

lemma while_loop_exit:
  "while_loop aws name fuel dr st s = (Ok (dr', st'), s') \<Longrightarrow>
   \<exists>k. s' = \<lparr>log = log s @ concat (replicate k [Call (DescribeAutoMLJob name) None, Slept 30]),
              clock = clock s + k\<rparr>
     \<and> st' \<in> set [''Failed'', ''Completed'', ''Stopped'']
     \<and> (k = 0 \<longrightarrow> st \<in> set [''Failed'', ''Completed'', ''Stopped''] \<and> dr' = dr \<and> st' = st)
     \<and> (0 < k \<longrightarrow> st \<notin> set [''Failed'', ''Completed'', ''Stopped'']
            \<and> describe_auto_ml_job aws (clock s + k - 1) name = Inr dr'
            \<and> st' = AutoMLJobStatus dr')
     \<and> (\<forall>j. Suc j < k \<longrightarrow>
            (\<exists>r. describe_auto_ml_job aws (clock s + j) name = Inr r
               \<and> AutoMLJobStatus r \<notin> set [''Failed'', ''Completed'', ''Stopped'']))"
proof (induction fuel arbitrary: dr st s)
  case 0
  then have t: "st \<in> set [''Failed'', ''Completed'', ''Stopped'']"
    by (auto split: if_splits)
  from 0 [unfolded while_loop_terminal [OF t]] have "dr' = dr" "st' = st" "s' = s"
    by simp_all
  with t show ?case by (intro exI [of _ 0]) simp
next
  case (Suc fuel)
  show ?case
  proof (cases "st \<in> set [''Failed'', ''Completed'', ''Stopped'']")
    case True
    from Suc.prems [unfolded while_loop_terminal [OF True]] have "dr' = dr" "st' = st" "s' = s"
      by simp_all
    with True show ?thesis by (intro exI [of _ 0]) simp
  next
    case False
    show ?thesis
    proof (cases "describe_auto_ml_job aws (clock s) name")
      case (Inl e)
      from Suc.prems show ?thesis
        unfolding while_loop_fail [OF False Inl] by simp
    next
      case (Inr r)
      let ?s1 = "\<lparr>log = log s @ [Call (DescribeAutoMLJob name) None, Slept 30], clock = Suc (clock s)\<rparr>"
      from Suc.prems have "while_loop aws name fuel r (AutoMLJobStatus r) ?s1 = (Ok (dr', st'), s')"
        unfolding while_loop_step [OF False Inr] .
      from Suc.IH [OF this] obtain k where
        s': "s' = \<lparr>log = log ?s1 @ concat (replicate k [Call (DescribeAutoMLJob name) None, Slept 30]),
                   clock = clock ?s1 + k\<rparr>"
        and t: "st' \<in> set [''Failed'', ''Completed'', ''Stopped'']"
        and z: "k = 0 \<longrightarrow> AutoMLJobStatus r \<in> set [''Failed'', ''Completed'', ''Stopped''] \<and> dr' = r \<and> st' = AutoMLJobStatus r"
        and p: "0 < k \<longrightarrow> AutoMLJobStatus r \<notin> set [''Failed'', ''Completed'', ''Stopped'']
            \<and> describe_auto_ml_job aws (clock ?s1 + k - 1) name = Inr dr'
            \<and> st' = AutoMLJobStatus dr'"
        and b: "\<forall>j. Suc j < k \<longrightarrow>
            (\<exists>r. describe_auto_ml_job aws (clock ?s1 + j) name = Inr r
               \<and> AutoMLJobStatus r \<notin> set [''Failed'', ''Completed'', ''Stopped''])"
        by blast
      have 1: "s' = \<lparr>log = log s @ concat (replicate (Suc k) [Call (DescribeAutoMLJob name) None, Slept 30]),
              clock = clock s + Suc k\<rparr>"
        using s' by simp
      have 2: "describe_auto_ml_job aws (clock s + Suc k - 1) name = Inr dr' \<and> st' = AutoMLJobStatus dr'"
        using z p Inr by (cases k) auto
      have 3: "\<forall>j. Suc j < Suc k \<longrightarrow>
            (\<exists>r. describe_auto_ml_job aws (clock s + j) name = Inr r
               \<and> AutoMLJobStatus r \<notin> set [''Failed'', ''Completed'', ''Stopped''])"
      proof (intro allI impI)
        fix j assume j: "Suc j < Suc k"
        show "\<exists>r. describe_auto_ml_job aws (clock s + j) name = Inr r
               \<and> AutoMLJobStatus r \<notin> set [''Failed'', ''Completed'', ''Stopped'']"
        proof (cases j)
          case 0
          with j p Inr show ?thesis by auto
        next
          case (Suc i)
          with j b show ?thesis by auto
        qed
      qed
      show ?thesis
        using 1 t False 2 3 by (intro exI [of _ "Suc k"]) simp
    qed
  qed
qed

lemma cell_19_exit:
  assumes run: "cell_19 aws name fuel s = (Ok (describe_response, job_run_status), s')"
  shows "\<exists>k. s' = \<lparr>log = log s @ Call (DescribeAutoMLJob name) None
                        # concat (replicate k [Call (DescribeAutoMLJob name) None, Slept 30]),
                    clock = clock s + Suc k\<rparr>
           \<and> describe_auto_ml_job aws (clock s + k) name = Inr describe_response
           \<and> job_run_status = AutoMLJobStatus describe_response
           \<and> job_run_status \<in> set [''Failed'', ''Completed'', ''Stopped'']
           \<and> (\<forall>j<k. \<exists>r. describe_auto_ml_job aws (clock s + j) name = Inr r
                  \<and> AutoMLJobStatus r \<notin> set [''Failed'', ''Completed'', ''Stopped''])"
proof (cases "describe_auto_ml_job aws (clock s) name")
  case (Inl e)
  with run show ?thesis by (simp add: cell_19_def seq_apply describe_apply)
next
  case (Inr r0)
  let ?s0 = "\<lparr>log = log s @ [Call (DescribeAutoMLJob name) None], clock = Suc (clock s)\<rparr>"
  from run Inr have "while_loop aws name fuel r0 (AutoMLJobStatus r0) ?s0
      = (Ok (describe_response, job_run_status), s')"
    by (simp add: cell_19_def seq_apply describe_apply)
  from while_loop_exit [OF this] obtain k where
    s': "s' = \<lparr>log = log ?s0 @ concat (replicate k [Call (DescribeAutoMLJob name) None, Slept 30]),
               clock = clock ?s0 + k\<rparr>"
    and t: "job_run_status \<in> set [''Failed'', ''Completed'', ''Stopped'']"
    and z: "k = 0 \<longrightarrow> AutoMLJobStatus r0 \<in> set [''Failed'', ''Completed'', ''Stopped'']
              \<and> describe_response = r0 \<and> job_run_status = AutoMLJobStatus r0"
    and p: "0 < k \<longrightarrow> AutoMLJobStatus r0 \<notin> set [''Failed'', ''Completed'', ''Stopped'']
          \<and> describe_auto_ml_job aws (clock ?s0 + k - 1) name = Inr describe_response
          \<and> job_run_status = AutoMLJobStatus describe_response"
    and b: "\<forall>j. Suc j < k \<longrightarrow>
          (\<exists>r. describe_auto_ml_job aws (clock ?s0 + j) name = Inr r
             \<and> AutoMLJobStatus r \<notin> set [''Failed'', ''Completed'', ''Stopped''])"
    by blast
  have 1: "describe_auto_ml_job aws (clock s + k) name = Inr describe_response
         \<and> job_run_status = AutoMLJobStatus describe_response"
    using z p Inr by (cases k) auto
  have 2: "\<forall>j<k. \<exists>r. describe_auto_ml_job aws (clock s + j) name = Inr r
                \<and> AutoMLJobStatus r \<notin> set [''Failed'', ''Completed'', ''Stopped'']"
  proof (intro allI impI)
    fix j assume j: "j < k"
    show "\<exists>r. describe_auto_ml_job aws (clock s + j) name = Inr r
                \<and> AutoMLJobStatus r \<notin> set [''Failed'', ''Completed'', ''Stopped'']"
    proof (cases j)
      case 0
      with j p Inr show ?thesis by auto
    next
      case (Suc i)
      with j b show ?thesis by auto
    qed
  qed
  show ?thesis using s' t 1 2 by (intro exI [of _ k]) simp
qed

lemma example_describe:
  "\<forall>t. describe_auto_ml_job example_aws t name = Inr (if t < 7 then in_progress else completed)"
  by (simp add: example_aws_def)

lemma stuck_describe:
  "\<forall>t. describe_auto_ml_job stuck_aws t name = Inr in_progress"
  by (simp add: stuck_aws_def example_aws_def)

section \<open>Properties of the data-frame operations\<close>












text \<open>
  Without a seed the sample depends on the entropy of the operating system: the seed
  argument is what fixes it.
\<close>

lemma sample_unseeded_varies:
  "sample example_library example_churn (4 / 5) None
     \<noteq> sample (example_library\<lparr>os_entropy := 8\<rparr>) example_churn (4 / 5) None"
  by code_simp









section \<open>Properties of runs\<close>

lemma calls_simps [simp]:
  "calls [] = []"
  "calls (Call c r # evs) = c # calls evs"
  "calls (Slept n # evs) = calls evs"
  "calls (Wrote p t # evs) = calls evs"
  "calls (xs @ ys) = calls xs @ calls ys"
  by (simp_all add: calls_def)

lemma fail_stop_Nil [simp]: "fail_stop res []"
  by (simp add: fail_stop_def)

lemma fail_stop_clean: "\<forall>ev \<in> set evs. \<not> failed ev \<Longrightarrow> fail_stop res evs"
  by (simp add: fail_stop_def)

lemma fail_stop_Ok: "fail_stop (Ok x) evs \<Longrightarrow> \<forall>ev \<in> set evs. \<not> failed ev"
  by (auto simp: fail_stop_def)

lemma fail_stop_prepend:
  assumes "\<forall>ev \<in> set evs1. \<not> failed ev" and "fail_stop res evs2"
  shows "fail_stop res (evs1 @ evs2)"
  using assms(2) unfolding fail_stop_def
proof (elim disjE exE conjE)
  assume "\<forall>ev \<in> set evs2. \<not> failed ev"
  with assms(1) show "(\<forall>ev\<in>set (evs1 @ evs2). \<not> failed ev) \<or>
    (\<exists>c e evs0. evs1 @ evs2 = evs0 @ [Call c (Some e)] \<and> (\<forall>ev\<in>set evs0. \<not> failed ev) \<and> res = Raise e)"
    by auto
next
  fix c e evs0
  assume "evs2 = evs0 @ [Call c (Some e)]" "\<forall>ev\<in>set evs0. \<not> failed ev" "res = Raise e"
  with assms(1) have "evs1 @ evs2 = (evs1 @ evs0) @ [Call c (Some e)]
      \<and> (\<forall>ev\<in>set (evs1 @ evs0). \<not> failed ev) \<and> res = Raise e"
    by auto
  then show "(\<forall>ev\<in>set (evs1 @ evs2). \<not> failed ev) \<or>
    (\<exists>c e evs0. evs1 @ evs2 = evs0 @ [Call c (Some e)] \<and> (\<forall>ev\<in>set evs0. \<not> failed ev) \<and> res = Raise e)"
    by blast
qed

lemma fail_stop_recast:
  "fail_stop res evs \<Longrightarrow> (\<And>x. res \<noteq> Ok x) \<Longrightarrow> (\<And>e. res = Raise e \<Longrightarrow> res' = Raise e)
   \<Longrightarrow> fail_stop res' evs"
  by (auto simp: fail_stop_def)

lemma runs_return: "Q x \<Longrightarrow> runs P Q (return x)"
  by (simp add: runs_def return_def)

lemma runs_lift:
  assumes "\<And>x. r = Inr x \<Longrightarrow> Q x"
  shows "runs P Q (lift r)"
proof (cases r)
  case (Inl e)
  then show ?thesis by (simp add: runs_def lift_def)
next
  case (Inr x)
  from assms [OF this] have "Q x" .
  with Inr show ?thesis by (simp add: runs_def lift_def)
qed

lemma runs_Running: "runs P Q (\<lambda>s. (Running, s))"
  by (simp add: runs_def)

lemma runs_remote:
  assumes "P c" and "\<And>t x. answer t = Inr x \<Longrightarrow> Q x"
  shows "runs P Q (remote c answer)"
  unfolding runs_def
proof
  fix s
  show "\<exists>evs. log (snd (remote c answer s)) = log s @ evs \<and> (\<forall>c\<in>set (calls evs). P c)
      \<and> fail_stop (fst (remote c answer s)) evs \<and> (\<forall>x. fst (remote c answer s) = Ok x \<longrightarrow> Q x)"
  proof (cases "answer (clock s)")
    case (Inl e)
    have "fail_stop (Raise e :: 'a result) [Call c (Some e)]"
      unfolding fail_stop_def
      by (intro disjI2 exI [of _ c] exI [of _ e] exI [of _ "[]"]) simp
    with Inl assms(1) show ?thesis
      by (intro exI [of _ "[Call c (Some e)]"]) (simp add: remote_def)
  next
    case (Inr x)
    from assms(2) [OF Inr] have "Q x" .
    with Inr assms(1) show ?thesis
      by (intro exI [of _ "[Call c None]"]) (simp add: remote_def fail_stop_clean)
  qed
qed

lemma runs_sleep: "Q () \<Longrightarrow> runs P Q (sleep n)"
  unfolding runs_def
  by (intro allI exI [of _ "[Slept n]"]) (simp add: sleep_def fail_stop_clean)

lemma runs_write_file: "Q () \<Longrightarrow> runs P Q (write_file path text)"
  unfolding runs_def
  by (intro allI exI [of _ "[Wrote path text]"]) (simp add: write_file_def fail_stop_clean)

lemma runs_gmtime_stamp:
  assumes "\<And>t. Q (strftime_gmtime aws t)"
  shows "runs P Q (gmtime_stamp aws)"
  unfolding runs_def
proof
  fix s :: state
  from assms have "Q (strftime_gmtime aws (clock s))" .
  then show "\<exists>evs. log (snd (gmtime_stamp aws s)) = log s @ evs \<and> (\<forall>c\<in>set (calls evs). P c)
      \<and> fail_stop (fst (gmtime_stamp aws s)) evs \<and> (\<forall>x. fst (gmtime_stamp aws s) = Ok x \<longrightarrow> Q x)"
    by (intro exI [of _ "[]"]) (simp add: gmtime_stamp_def)
qed

lemma seq_Ok: "m s = (Ok x, s') \<Longrightarrow> seq m f s = f x s'"
  by (simp add: seq_def)

lemma seq_Raise: "m s = (Raise e, s') \<Longrightarrow> seq m f s = (Raise e, s')"
  by (simp add: seq_def)

lemma seq_Running: "m s = (Running, s') \<Longrightarrow> seq m f s = (Running, s')"
  by (simp add: seq_def)

lemma runs_seq:
  assumes m: "runs P Q m" and f: "\<And>x. Q x \<Longrightarrow> runs P R (f x)"
  shows "runs P R (seq m f)"
  unfolding runs_def
proof
  fix s
  from m obtain evs1 where
    l1: "log (snd (m s)) = log s @ evs1" and p1: "\<forall>c\<in>set (calls evs1). P c"
    and f1: "fail_stop (fst (m s)) evs1" and q1: "\<forall>x. fst (m s) = Ok x \<longrightarrow> Q x"
    unfolding runs_def by blast
  show "\<exists>evs. log (snd (seq m f s)) = log s @ evs \<and> (\<forall>c\<in>set (calls evs). P c)
      \<and> fail_stop (fst (seq m f s)) evs \<and> (\<forall>x. fst (seq m f s) = Ok x \<longrightarrow> R x)"
  proof (cases "fst (m s)")
    case (Ok x)
    then have ms: "m s = (Ok x, snd (m s))" by (metis prod.collapse)
    from q1 Ok have "Q x" by simp
    from f [OF this] obtain evs2 where
      l2: "log (snd (f x (snd (m s)))) = log (snd (m s)) @ evs2"
      and p2: "\<forall>c\<in>set (calls evs2). P c"
      and f2: "fail_stop (fst (f x (snd (m s)))) evs2"
      and q2: "\<forall>y. fst (f x (snd (m s))) = Ok y \<longrightarrow> R y"
      unfolding runs_def by blast
    have sq: "seq m f s = f x (snd (m s))"
      by (rule seq_Ok [of m s x "snd (m s)" f, OF ms])
    from f1 Ok have "\<forall>ev\<in>set evs1. \<not> failed ev" by (metis fail_stop_Ok)
    from fail_stop_prepend [OF this f2] l1 l2 p1 p2 q2 show ?thesis
      by (intro exI [of _ "evs1 @ evs2"]) (auto simp: sq)
  next
    case (Raise e)
    then have ms: "m s = (Raise e, snd (m s))" by (metis prod.collapse)
    have sq: "seq m f s = (Raise e, snd (m s))"
      by (rule seq_Raise [of m s e "snd (m s)" f, OF ms])
    from f1 Raise have "fail_stop (Raise e :: 'b result) evs1"
      by (auto simp: fail_stop_def)
    with l1 p1 show ?thesis
      by (intro exI [of _ evs1]) (simp add: sq)
  next
    case Running
    then have ms: "m s = (Running, snd (m s))" by (metis prod.collapse)
    have sq: "seq m f s = (Running, snd (m s))"
      by (rule seq_Running [of m s "snd (m s)" f, OF ms])
    from f1 Running have "fail_stop (Running :: 'b result) evs1"
      by (auto simp: fail_stop_def)
    with l1 p1 show ?thesis
      by (intro exI [of _ evs1]) (simp add: sq)
  qed
qed

lemma runs_weaken:
  "runs P Q m \<Longrightarrow> (\<And>c. P c \<Longrightarrow> P' c) \<Longrightarrow> (\<And>x. Q x \<Longrightarrow> Q' x) \<Longrightarrow> runs P' Q' m"
  unfolding runs_def by blast

lemma runs_case_prod: "(\<And>a b. runs P Q (f a b)) \<Longrightarrow> runs P Q (case_prod f x)"
  by (cases x) simp

lemma runs_then: "runs P (\<lambda>_. True) m \<Longrightarrow> (\<And>x. runs P R (f x)) \<Longrightarrow> runs P R (seq m f)"
  by (rule runs_seq)

lemma runs_return_any: "runs P (\<lambda>_. True) (return x)"
  by (rule runs_return) simp

lemma runs_lift_any: "runs P (\<lambda>_. True) (lift r)"
  by (rule runs_lift) simp

lemma runs_remote_any: "P c \<Longrightarrow> runs P (\<lambda>_. True) (remote c answer)"
  by (rule runs_remote) simp_all

lemma runs_sleep_any: "runs P (\<lambda>_. True) (sleep n)"
  by (rule runs_sleep) simp

lemma runs_write_file_any: "runs P (\<lambda>_. True) (write_file path text)"
  by (rule runs_write_file) simp

lemma runs_gmtime_stamp_any: "runs P (\<lambda>_. True) (gmtime_stamp aws)"
  by (rule runs_gmtime_stamp) simp

lemma runs_if: "runs P Q m1 \<Longrightarrow> runs P Q m2 \<Longrightarrow> runs P Q (if b then m1 else m2)"
  by simp

lemmas runs_intros =
  runs_then runs_case_prod runs_if runs_return_any runs_lift_any runs_remote_any
  runs_sleep_any runs_write_file_any runs_gmtime_stamp_any

lemma runs_describe:
  "P (DescribeAutoMLJob name) \<Longrightarrow> runs P (\<lambda>_. True) (describe aws name)"
  unfolding describe_def by (rule runs_remote_any)

lemma runs_while_loop:
  assumes "P (DescribeAutoMLJob name)"
  shows "runs P (\<lambda>_. True) (while_loop aws name fuel dr st)"
proof (induction fuel arbitrary: dr st)
  case 0
  show ?case by (simp add: runs_Running runs_return_any)
next
  case (Suc fuel)
  have "runs P (\<lambda>_. True)
      (seq (describe aws name) (\<lambda>r. seq (sleep 30) (\<lambda>_. while_loop aws name fuel r (AutoMLJobStatus r))))"
    by (intro runs_then runs_describe runs_sleep_any assms Suc.IH)
  then show ?case by (simp add: runs_return_any)
qed

lemma runs_cell_1:
  assumes "P GetExecutionRole" and "P ListBuckets"
  shows "runs P (\<lambda>_. True) (cell_1 aws)"
  unfolding cell_1_def by (intro runs_intros assms)

lemma runs_cell_9: "runs P (\<lambda>_. True) (cell_9 aws churn)"
  unfolding cell_9_def by (intro runs_intros)

lemma runs_cell_11:
  assumes "\<And>path key_prefix. P (UploadData path key_prefix)"
  shows "runs P (\<lambda>_. True) (cell_11 aws train_data test_data_no_target)"
  unfolding cell_11_def by (intro runs_intros assms)

lemma runs_cell_16:
  assumes "\<And>request. P (CreateAutoMLJob request)"
  shows "runs P (\<lambda>_. True) (cell_16 aws role bucket)"
  unfolding cell_16_def Let_def by (intro runs_intros assms)

lemma runs_cell_19:
  assumes "P (DescribeAutoMLJob name)"
  shows "runs P (\<lambda>_. True) (cell_19 aws name fuel)"
  unfolding cell_19_def by (intro runs_then runs_describe runs_while_loop assms)

lemma runs_cell_21: "runs P (\<lambda>_. True) (cell_21 describe_response)"
  unfolding cell_21_def by (intro runs_intros)

lemma runs_cell_22:
  assumes "\<And>path bucket key_prefix. P (DownloadData path bucket key_prefix)"
  shows "runs P (\<lambda>_. True) (cell_22 aws candidate_nbk data_explore_nbk)"
  unfolding cell_22_def by (intro runs_intros assms)

lemma runs_cell_24:
  assumes "P (DescribeAutoMLJob name)"
  shows "runs P (\<lambda>_. True) (cell_24 aws name)"
  unfolding cell_24_def by (intro runs_intros runs_describe assms)

lemma runs_cell_27:
  assumes "P (ListCandidatesForAutoMLJob name)"
  shows "runs P (\<lambda>_. True) (cell_27 aws name)"
  unfolding cell_27_def by (intro runs_intros assms)

lemma runs_cell_30:
  assumes "\<And>containers name role. P (CreateModel containers name role)"
    and "\<And>name variants. P (CreateEndpointConfig name variants)"
    and "\<And>name config. P (CreateEndpoint name config)"
  shows "runs P (\<lambda>_. True) (cell_30 aws role best_candidate best_candidate_name)"
  unfolding cell_30_def Let_def by (intro runs_intros assms)

lemma runs_cell_31:
  assumes "P (WaitEndpointInService ep_name)"
  shows "runs P (\<lambda>_. True) (cell_31 aws ep_name)"
  unfolding cell_31_def by (intro runs_intros assms)

lemma runs_cell_33:
  assumes "\<And>body. P (InvokeEndpoint ep_name body)"
  shows "runs P (\<lambda>_. True) (cell_33 aws ep_name test_data)"
  unfolding cell_33_def predict_def Let_def by (intro runs_intros assms)

lemma runs_host_and_evaluate:
  assumes "\<And>c. is_hosting c \<Longrightarrow> P c"
  shows "runs P (\<lambda>_. True) (host_and_evaluate aws role best_candidate best_candidate_name test_data)"
  unfolding host_and_evaluate_def
  by (intro runs_then runs_case_prod runs_cell_30 runs_cell_31 runs_cell_33 assms) simp_all

lemma runs_track_and_host:
  assumes "P (DescribeAutoMLJob name)" and "P (ListCandidatesForAutoMLJob name)"
    and "\<And>path bucket key_prefix. P (DownloadData path bucket key_prefix)"
    and "\<And>c. is_hosting c \<Longrightarrow> P c"
  shows "runs P (\<lambda>_. True) (track_and_host aws role name test_data fuel)"
  unfolding track_and_host_def
  by (intro runs_then runs_case_prod runs_cell_19 runs_cell_21 runs_cell_22 runs_cell_24
      runs_cell_27 runs_lift_any runs_host_and_evaluate assms)

lemma hosting_not_delete: "is_hosting c \<Longrightarrow> \<not> is_delete c"
  by (cases c) simp_all

lemma runs_notebook:
  assumes "\<And>c. \<not> is_delete c \<Longrightarrow> P c"
  shows "runs P (\<lambda>_. True) (notebook aws churn fuel)"
  unfolding notebook_def
  by (intro runs_then runs_case_prod runs_cell_1 runs_cell_9 runs_cell_11 runs_cell_16
      runs_track_and_host assms) (simp_all add: hosting_not_delete)

lemma failure_is_last:
  assumes "fail_stop res evs" and "evs = before @ Call c (Some e) # rest"
  shows "rest = [] \<and> res = Raise e \<and> (\<forall>ev \<in> set before. \<not> failed ev)"
proof -
  have "failed (Call c (Some e))" by simp
  with assms have "\<not> (\<forall>ev \<in> set evs. \<not> failed ev)" by auto
  with assms(1) obtain c' e' evs0 where
    evs: "evs = evs0 @ [Call c' (Some e')]" and clean: "\<forall>ev \<in> set evs0. \<not> failed ev"
    and res: "res = Raise e'"
    unfolding fail_stop_def by blast
  show ?thesis
  proof (cases rest rule: rev_cases)
    case Nil
    with assms(2) evs have "before = evs0" "c = c'" "e = e'" by simp_all
    with Nil clean res show ?thesis by simp
  next
    case (snoc ys z)
    with assms(2) evs have "evs0 = before @ Call c (Some e) # ys" by simp
    with clean have False by simp
    then show ?thesis ..
  qed
qed

lemma notebook_fail_stop:
  "\<exists>evs. log (snd (notebook aws churn fuel s)) = log s @ evs
     \<and> (\<forall>c \<in> set (calls evs). \<not> is_delete c)
     \<and> fail_stop (fst (notebook aws churn fuel s)) evs"
  using runs_notebook [of "\<lambda>c. \<not> is_delete c" aws churn fuel]
  unfolding runs_def by blast

lemma effect_keeps:
  assumes "\<forall>c r. ev = Call c r \<longrightarrow> \<not> is_delete c"
  shows "R \<subseteq> effect ev R"
proof (cases ev)
  case (Call c r)
  with assms have "\<not> is_delete c" by simp
  then show ?thesis unfolding Call by (cases c; cases r) auto
qed simp_all

lemma fold_effect_keeps:
  assumes "\<forall>c \<in> set (calls evs). \<not> is_delete c"
  shows "R \<subseteq> fold effect evs R"
  using assms
proof (induction evs arbitrary: R)
  case Nil
  show ?case by simp
next
  case (Cons ev evs)
  have "\<forall>c r. ev = Call c r \<longrightarrow> \<not> is_delete c"
    using Cons.prems by auto
  from effect_keeps [OF this] have "R \<subseteq> effect ev R" .
  moreover have "effect ev R \<subseteq> fold effect evs (effect ev R)"
    using Cons.prems by (intro Cons.IH) (cases ev, auto)
  ultimately show ?case by auto
qed

lemma fold_effect_created:
  assumes "\<forall>c \<in> set (calls evs). \<not> is_delete c" and "ev \<in> set evs"
  shows "effect ev {} \<subseteq> fold effect evs R"
  using assms
proof (induction evs arbitrary: R)
  case Nil
  then show ?case by simp
next
  case (Cons a evs)
  have rest: "\<forall>c \<in> set (calls evs). \<not> is_delete c"
    using Cons.prems(1) by (cases a) auto
  show ?case
  proof (cases "ev = a")
    case True
    have "effect a {} \<subseteq> effect a R"
      by (cases "(a, R)" rule: effect.cases) auto
    also have "\<dots> \<subseteq> fold effect evs (effect a R)"
      by (rule fold_effect_keeps [OF rest])
    finally show ?thesis using True by simp
  next
    case False
    with Cons.prems(2) have "ev \<in> set evs" by simp
    from Cons.IH [OF rest this] show ?thesis by simp
  qed
qed

lemma resources_created:
  assumes "\<forall>c \<in> set (calls evs). \<not> is_delete c"
  shows "Call (CreateModel containers name role) None \<in> set evs \<Longrightarrow> Model name \<in> resources evs"
    and "Call (CreateEndpointConfig name variants) None \<in> set evs \<Longrightarrow> EndpointConfig name \<in> resources evs"
    and "Call (CreateEndpoint name config) None \<in> set evs \<Longrightarrow> Endpoint name \<in> resources evs"
  using fold_effect_created [OF assms, of _ "{}"] unfolding resources_def by fastforce+

lemma ends_with_after_seq:
  assumes m: "runs P Q m" and f: "\<And>x. Q x \<Longrightarrow> ends_with (after P B) (f x)"
  shows "ends_with (after P B) (seq m f)"
  unfolding ends_with_def
proof
  fix s
  from m obtain evs1 where
    l1: "log (snd (m s)) = log s @ evs1" and p1: "\<forall>c\<in>set (calls evs1). P c"
    and q1: "\<forall>x. fst (m s) = Ok x \<longrightarrow> Q x"
    unfolding runs_def by blast
  show "\<exists>evs. log (snd (seq m f s)) = log s @ evs \<and> after P B (fst (seq m f s)) evs"
  proof (cases "fst (m s)")
    case (Ok x)
    then have ms: "m s = (Ok x, snd (m s))" by (metis prod.collapse)
    have sq: "seq m f s = f x (snd (m s))"
      by (rule seq_Ok [of m s x "snd (m s)" f, OF ms])
    from q1 Ok have "Q x" by simp
    from f [OF this] obtain evs2 where
      l2: "log (snd (f x (snd (m s)))) = log (snd (m s)) @ evs2"
      and a2: "after P B (fst (f x (snd (m s)))) evs2"
      unfolding ends_with_def by blast
    from a2 obtain e1 e2 where
      e: "evs2 = e1 @ e2" and pe: "\<forall>c\<in>set (calls e1). P c"
      and b: "(e2 = [] \<and> (\<forall>y. fst (f x (snd (m s))) \<noteq> Ok y)) \<or> B (fst (f x (snd (m s)))) e2"
      unfolding after_def by blast
    have "after P B (fst (f x (snd (m s)))) (evs1 @ evs2)"
      unfolding after_def
      apply (rule exI [of _ "evs1 @ e1"])
      apply (rule exI [of _ e2])
      using e p1 pe b by auto
    with l1 l2 show ?thesis
      by (intro exI [of _ "evs1 @ evs2"]) (simp add: sq)
  next
    case (Raise e)
    then have ms: "m s = (Raise e, snd (m s))" by (metis prod.collapse)
    have sq: "seq m f s = (Raise e, snd (m s))"
      by (rule seq_Raise [of m s e "snd (m s)" f, OF ms])
    have "after P B (Raise e) evs1"
      unfolding after_def
      apply (rule exI [of _ evs1])
      apply (rule exI [of _ "[]"])
      using p1 by simp
    with l1 show ?thesis
      by (intro exI [of _ evs1]) (simp add: sq)
  next
    case Running
    then have ms: "m s = (Running, snd (m s))" by (metis prod.collapse)
    have sq: "seq m f s = (Running, snd (m s))"
      by (rule seq_Running [of m s "snd (m s)" f, OF ms])
    have "after P B Running evs1"
      unfolding after_def
      apply (rule exI [of _ evs1])
      apply (rule exI [of _ "[]"])
      using p1 by simp
    with l1 show ?thesis
      by (intro exI [of _ evs1]) (simp add: sq)
  qed
qed

lemma ends_with_after_start: "ends_with B m \<Longrightarrow> ends_with (after P B) m"
  unfolding ends_with_def after_def
  by (metis append_Nil calls_simps(1) empty_iff empty_set)

lemma ends_with_case_prod:
  "(\<And>a b. x = (a, b) \<Longrightarrow> ends_with B (f a b)) \<Longrightarrow> ends_with B (case_prod f x)"
  by (cases x) simp

lemma runs_post:
  assumes "runs P Q m" and "\<And>s x s'. m s = (Ok x, s') \<Longrightarrow> Q' x"
  shows "runs P Q' m"
  unfolding runs_def
proof
  fix s
  from assms(1) obtain evs where
    l: "log (snd (m s)) = log s @ evs" and p: "\<forall>c\<in>set (calls evs). P c"
    and f: "fail_stop (fst (m s)) evs"
    unfolding runs_def by blast
  have "\<forall>x. fst (m s) = Ok x \<longrightarrow> Q' x"
  proof (intro allI impI)
    fix x assume "fst (m s) = Ok x"
    then have "m s = (Ok x, snd (m s))" by (metis prod.collapse)
    then show "Q' x" by (rule assms(2))
  qed
  with l p f show "\<exists>evs. log (snd (m s)) = log s @ evs \<and> (\<forall>c\<in>set (calls evs). P c)
      \<and> fail_stop (fst (m s)) evs \<and> (\<forall>x. fst (m s) = Ok x \<longrightarrow> Q' x)"
    by blast
qed

lemma cell_24_result:
  assumes "cell_24 aws name s = (Ok x, s')"
  shows "\<exists>response. describe_auto_ml_job aws (clock s) name = Inr response
      \<and> BestCandidate response = Some (fst x) \<and> snd x = CandidateName (fst x)"
  using assms
  by (auto simp: cell_24_def seq_apply describe_apply lift_def return_def
      split: sum.splits option.splits)

lemma cell_33_calls:
  "\<exists>evs body. log (snd (cell_33 aws ep_name test_data s)) = log s @ evs
     \<and> prefix (calls evs) [InvokeEndpoint ep_name body]
     \<and> (\<forall>x. fst (cell_33 aws ep_name test_data s) = Ok x \<longrightarrow>
           calls evs = [InvokeEndpoint ep_name body])"
proof (cases "drop_columns test_data [Text ''Churn?'']")
  case (Inl e)
  then have "cell_33 aws ep_name test_data s = (Raise e, s)"
    by (simp add: cell_33_def seq_apply lift_def)
  then show ?thesis by simp
next
  case (Inr tdi)
  let ?body = "to_csv (py aws) tdi '','' False False"
  show ?thesis
  proof (cases "invoke_endpoint aws (clock s) ep_name ?body")
    case (Inl e)
    with Inr have "cell_33 aws ep_name test_data s =
        (Raise e, \<lparr>log = log s @ [Call (InvokeEndpoint ep_name ?body) (Some e)], clock = Suc (clock s)\<rparr>)"
      by (simp add: cell_33_def seq_apply lift_def predict_def remote_def)
    then show ?thesis
      by (intro exI [of _ "[Call (InvokeEndpoint ep_name ?body) (Some e)]"] exI [of _ ?body]) simp
  next
    case (Inr response)
    let ?s1 = "\<lparr>log = log s @ [Call (InvokeEndpoint ep_name ?body) None], clock = Suc (clock s)\<rparr>"
    from Inr \<open>drop_columns test_data [Text ''Churn?''] = Inr tdi\<close>
    have "snd (cell_33 aws ep_name test_data s) = ?s1"
      by (simp add: cell_33_def seq_apply lift_def predict_def remote_def Let_def
          split: sum.splits)
    then show ?thesis
      by (intro exI [of _ "[Call (InvokeEndpoint ep_name ?body) None]"] exI [of _ ?body]) simp
  qed
qed

lemma cell_30_31_calls:
  "\<exists>evs. log (snd (seq (cell_30 aws role bc (CandidateName bc)) (\<lambda>(model_name, epc_name, ep_name).
                      seq (cell_31 aws ep_name) (\<lambda>_. return ep_name)) s)) = log s @ evs
     \<and> prefix (calls evs) (deployment_calls bc role (strftime_gmtime aws (clock s)))
     \<and> (\<forall>x. fst (seq (cell_30 aws role bc (CandidateName bc)) (\<lambda>(model_name, epc_name, ep_name).
                      seq (cell_31 aws ep_name) (\<lambda>_. return ep_name)) s) = Ok x \<longrightarrow>
           calls evs = deployment_calls bc role (strftime_gmtime aws (clock s))
           \<and> x = CandidateName bc @ strftime_gmtime aws (clock s) @ ''-ep'')"
  by (simp add: cell_30_def cell_31_def seq_apply remote_def gmtime_stamp_def return_def
      Let_def deployment_calls_def split: sum.splits)

lemma host_and_evaluate_assoc:
  "host_and_evaluate aws role bc bcn td =
     seq (seq (cell_30 aws role bc bcn) (\<lambda>(model_name, epc_name, ep_name).
            seq (cell_31 aws ep_name) (\<lambda>_. return ep_name)))
       (\<lambda>ep_name. cell_33 aws ep_name td)"
  by (rule ext)
    (simp add: host_and_evaluate_def seq_def return_def split: prod.splits result.splits)

lemma prefix_single: "prefix xs [a] \<longleftrightarrow> xs = [] \<or> xs = [a]"
  by (cases xs) auto

lemma shape_seq:
  assumes l1: "log (snd (m s)) = log s @ evs1"
    and p1: "prefix (calls evs1) A"
    and o1: "\<forall>x. fst (m s) = Ok x \<longrightarrow> calls evs1 = A \<and> x = v"
    and 2: "\<And>s1. \<exists>evs2 b. log (snd (f v s1)) = log s1 @ evs2
              \<and> prefix (calls evs2) [g b]
              \<and> (\<forall>y. fst (f v s1) = Ok y \<longrightarrow> calls evs2 = [g b])"
  shows "\<exists>evs b. log (snd (seq m f s)) = log s @ evs
           \<and> prefix (calls evs) (A @ [g b])
           \<and> (\<forall>y. fst (seq m f s) = Ok y \<longrightarrow> calls evs = A @ [g b])"
proof (cases "fst (m s)")
  case (Ok x)
  with o1 have c1: "calls evs1 = A" and x: "x = v" by simp_all
  from Ok x have ms: "m s = (Ok v, snd (m s))" by (metis prod.collapse)
  have sq: "seq m f s = f v (snd (m s))"
    by (rule seq_Ok [of m s v "snd (m s)" f, OF ms])
  from 2 [of "snd (m s)"] obtain evs2 b where
    l2: "log (snd (f v (snd (m s)))) = log (snd (m s)) @ evs2"
    and p2: "prefix (calls evs2) [g b]"
    and o2: "\<forall>y. fst (f v (snd (m s))) = Ok y \<longrightarrow> calls evs2 = [g b]"
    by blast
  show ?thesis
    apply (rule exI [of _ "evs1 @ evs2"])
    apply (rule exI [of _ b])
    unfolding sq
    using l1 l2 p2 o2 c1 by (auto simp: prefix_single)
next
  case (Raise e)
  then have ms: "m s = (Raise e, snd (m s))" by (metis prod.collapse)
  have sq: "seq m f s = (Raise e, snd (m s))"
    by (rule seq_Raise [of m s e "snd (m s)" f, OF ms])
  from p1 have "prefix (calls evs1) (A @ [g undefined])" by (rule prefix_prefix)
  with l1 show ?thesis
    by (intro exI [of _ evs1] exI [of _ undefined]) (simp add: sq)
next
  case Running
  then have ms: "m s = (Running, snd (m s))" by (metis prod.collapse)
  have sq: "seq m f s = (Running, snd (m s))"
    by (rule seq_Running [of m s "snd (m s)" f, OF ms])
  from p1 have "prefix (calls evs1) (A @ [g undefined])" by (rule prefix_prefix)
  with l1 show ?thesis
    by (intro exI [of _ evs1] exI [of _ undefined]) (simp add: sq)
qed

lemma host_and_evaluate_calls:
  "\<exists>evs body. log (snd (host_and_evaluate aws role bc (CandidateName bc) td s)) = log s @ evs
     \<and> prefix (calls evs) (hosting_calls bc role (strftime_gmtime aws (clock s)) body)
     \<and> (\<forall>x. fst (host_and_evaluate aws role bc (CandidateName bc) td s) = Ok x \<longrightarrow>
           calls evs = hosting_calls bc role (strftime_gmtime aws (clock s)) body)"
proof -
  let ?ts = "strftime_gmtime aws (clock s)"
  let ?ep = "CandidateName bc @ ?ts @ ''-ep''"
  let ?A = "deployment_calls bc role ?ts"
  from cell_30_31_calls [of aws role bc s]
  show ?thesis
  proof (elim exE conjE)
    fix evs1
    assume l1: "log (snd (seq (cell_30 aws role bc (CandidateName bc)) (\<lambda>(model_name, epc_name, ep_name).
                      seq (cell_31 aws ep_name) (\<lambda>_. return ep_name)) s)) = log s @ evs1"
      and p1: "prefix (calls evs1) ?A"
      and o1: "\<forall>x. fst (seq (cell_30 aws role bc (CandidateName bc)) (\<lambda>(model_name, epc_name, ep_name).
                      seq (cell_31 aws ep_name) (\<lambda>_. return ep_name)) s) = Ok x \<longrightarrow>
           calls evs1 = ?A \<and> x = ?ep"
    show ?thesis
      unfolding host_and_evaluate_assoc hosting_calls_def
      apply (rule shape_seq [where g = "InvokeEndpoint ?ep" and v = ?ep and A = ?A
            and f = "\<lambda>ep_name. cell_33 aws ep_name td"])
         apply (rule l1)
        apply (rule p1)
       apply (rule o1)
      apply (rule cell_33_calls)
      done
  qed
qed

lemma host_and_evaluate_shape:
  assumes "describe_auto_ml_job aws t name = Inr response"
    and "BestCandidate response = Some bc"
  shows "ends_with (hosting_shape aws) (host_and_evaluate aws role bc (CandidateName bc) td)"
  unfolding ends_with_def
proof
  fix s
  let ?H = "host_and_evaluate aws role bc (CandidateName bc) td"
  from host_and_evaluate_calls [of aws role bc td s]
  show "\<exists>evs. log (snd (?H s)) = log s @ evs \<and> hosting_shape aws (fst (?H s)) evs"
  proof (elim exE conjE)
    fix evs body
    assume l: "log (snd (?H s)) = log s @ evs"
      and p: "prefix (calls evs) (hosting_calls bc role (strftime_gmtime aws (clock s)) body)"
      and o: "\<forall>x. fst (?H s) = Ok x \<longrightarrow>
           calls evs = hosting_calls bc role (strftime_gmtime aws (clock s)) body"
    have "hosting_shape aws (fst (?H s)) evs"
      unfolding hosting_shape_def
      apply (rule exI [of _ t])
      apply (rule exI [of _ name])
      apply (rule exI [of _ response])
      apply (rule exI [of _ bc])
      apply (rule exI [of _ role])
      apply (rule exI [of _ "strftime_gmtime aws (clock s)"])
      apply (rule exI [of _ body])
      apply (intro conjI)
         apply (rule assms(1))
        apply (rule assms(2))
       apply (rule p)
      apply (rule o)
      done
    with l show ?thesis by (intro exI [of _ evs] conjI)
  qed
qed

lemma not_hosting_simps:
  "\<not> is_hosting (DescribeAutoMLJob name)"
  "\<not> is_hosting (ListCandidatesForAutoMLJob name)"
  "\<not> is_hosting (DownloadData path bucket key_prefix)"
  "\<not> is_hosting GetExecutionRole"
  "\<not> is_hosting ListBuckets"
  "\<not> is_hosting (UploadData path key_prefix)"
  "\<not> is_hosting (CreateAutoMLJob request)"
  by simp_all

lemma runs_cell_24_linked:
  assumes "P (DescribeAutoMLJob name)"
  shows "runs P (\<lambda>x. \<exists>t response. describe_auto_ml_job aws t name = Inr response
            \<and> BestCandidate response = Some (fst x) \<and> snd x = CandidateName (fst x))
          (cell_24 aws name)"
proof (rule runs_post [OF runs_cell_24 [where P = P and name = name, OF assms]])
  fix s x s'
  assume "cell_24 aws name s = (Ok x, s')"
  from cell_24_result [OF this]
  show "\<exists>t response. describe_auto_ml_job aws t name = Inr response
            \<and> BestCandidate response = Some (fst x) \<and> snd x = CandidateName (fst x)"
    by blast
qed

lemma track_and_host_shape:
  "ends_with (after (\<lambda>c. \<not> is_hosting c) (hosting_shape aws))
     (track_and_host aws role name td fuel)"
  unfolding track_and_host_def
  apply (rule ends_with_after_seq [OF runs_cell_19])
   apply simp
  apply (rule ends_with_case_prod)
  apply (rule ends_with_after_seq [OF runs_cell_21])
  apply (rule ends_with_case_prod)
  apply (rule ends_with_after_seq [OF runs_cell_22])
   apply simp
  apply (rule ends_with_after_seq [OF runs_cell_24_linked])
   apply simp
  apply (rule ends_with_case_prod)
  apply (rule ends_with_after_seq [OF runs_cell_27])
   apply simp
  apply (rule ends_with_after_seq [OF runs_lift_any])
  apply (rule ends_with_after_start)
  apply (elim exE conjE)
  apply simp
  apply (erule (1) host_and_evaluate_shape)
  done

lemma notebook_hosting_shape:
  "ends_with (after (\<lambda>c. \<not> is_hosting c) (hosting_shape aws)) (notebook aws churn fuel)"
  unfolding notebook_def
  apply (rule ends_with_after_seq [OF runs_cell_1])
    apply simp
   apply simp
  apply (rule ends_with_case_prod)
  apply (rule ends_with_after_seq [OF runs_cell_9])
  apply (rule ends_with_case_prod)
  apply (rule ends_with_case_prod)
  apply (rule ends_with_after_seq [OF runs_cell_11])
   apply simp
  apply (rule ends_with_after_seq [OF runs_cell_16])
   apply simp
  apply (rule track_and_host_shape)
  done

lemma notebook_hosting_calls:
  assumes "notebook aws churn fuel start = (outcome, s')"
  shows "\<exists>e1 e2. log s' = e1 @ e2 \<and> (\<forall>c \<in> set (calls e1). \<not> is_hosting c)
      \<and> ((e2 = [] \<and> (\<forall>x. outcome \<noteq> Ok x)) \<or> hosting_shape aws outcome e2)"
proof -
  from notebook_hosting_shape [of aws churn fuel]
  obtain evs where "log (snd (notebook aws churn fuel start)) = log start @ evs"
    and "after (\<lambda>c. \<not> is_hosting c) (hosting_shape aws) (fst (notebook aws churn fuel start)) evs"
    unfolding ends_with_def by blast
  with assms have "after (\<lambda>c. \<not> is_hosting c) (hosting_shape aws) outcome (log s')"
    by (simp add: start_def)
  then show ?thesis unfolding after_def .
qed

lemma call_in_log: "c \<in> set (calls evs) \<Longrightarrow> \<exists>r. Call c r \<in> set evs"
proof (induction evs)
  case Nil
  then show ?case by simp
next
  case (Cons ev evs)
  then show ?case by (cases ev) auto
qed

lemma clean_call_in_log:
  assumes "c \<in> set (calls evs)" and "\<forall>ev \<in> set evs. \<not> failed ev"
  shows "Call c None \<in> set evs"
proof -
  from call_in_log [OF assms(1)] obtain r where r: "Call c r \<in> set evs" by blast
  with assms(2) have "\<not> failed (Call c r)" by blast
  then have "r = None" by (cases r) simp_all
  with r show ?thesis by simp
qed

lemma notebook_created_on_success:
  assumes "notebook aws churn fuel start = (Ok x, s')"
  shows "\<exists>containers model_name role epc_name variants ep_name config.
      Call (CreateModel containers model_name role) None \<in> set (log s')
    \<and> Call (CreateEndpointConfig epc_name variants) None \<in> set (log s')
    \<and> Call (CreateEndpoint ep_name config) None \<in> set (log s')"
proof -
  from notebook_fail_stop [of aws churn fuel start] assms
  have "fail_stop (Ok x :: cell result) (log s')" by (simp add: start_def)
  then have clean: "\<forall>ev \<in> set (log s'). \<not> failed ev" by (rule fail_stop_Ok)
  from notebook_hosting_calls [OF assms] obtain e1 e2 where
    l: "log s' = e1 @ e2" and "hosting_shape aws (Ok x :: cell result) e2"
    by blast
  then obtain bc role ts body where
    "calls e2 = hosting_calls bc role ts body"
    unfolding hosting_shape_def by blast
  then have c: "set (hosting_calls bc role ts body) \<subseteq> set (calls (log s'))"
    using l by simp
  have "CreateModel (InferenceContainers bc) (CandidateName bc @ ts @ ''-model'') role
      \<in> set (hosting_calls bc role ts body)"
    and "CreateEndpointConfig (CandidateName bc @ ts @ ''-epc'')
          (production_variants (CandidateName bc @ ts @ ''-model''))
      \<in> set (hosting_calls bc role ts body)"
    and "CreateEndpoint (CandidateName bc @ ts @ ''-ep'') (CandidateName bc @ ts @ ''-epc'')
      \<in> set (hosting_calls bc role ts body)"
    by (simp_all add: hosting_calls_def deployment_calls_def Let_def)
  with c have "CreateModel (InferenceContainers bc) (CandidateName bc @ ts @ ''-model'') role
      \<in> set (calls (log s'))"
    and "CreateEndpointConfig (CandidateName bc @ ts @ ''-epc'')
          (production_variants (CandidateName bc @ ts @ ''-model''))
      \<in> set (calls (log s'))"
    and "CreateEndpoint (CandidateName bc @ ts @ ''-ep'') (CandidateName bc @ ts @ ''-epc'')
      \<in> set (calls (log s'))"
    by blast+
  from this [THEN clean_call_in_log [OF _ clean]] show ?thesis by blast
qed





section \<open>Claims\<close>

text \<open>
  C9, as stated, fails. The bucket name \<^verbatim>\<open>s3:\<close> is non-empty and has no slash, and
  neither it nor the key \<^verbatim>\<open>/x\<close> contains \<^verbatim>\<open>s3://\<close>; but in the URI
  \<^verbatim>\<open>s3://s3://x\<close> the end of the bucket name, the separating slash and the first slash
  of the key form a second \<^verbatim>\<open>s3://\<close>, which \<^verbatim>\<open>replace\<close> removes as well. The
  function returns the bucket \<^verbatim>\<open>x\<close> and an empty key, and putting these together
  again gives \<^verbatim>\<open>s3://x/\<close>, not the input.
\<close>

theorem split_s3_path_straddle_counterexample:
  "''s3:'' \<noteq> [] \<and> CHR ''/'' \<notin> set ''s3:''
   \<and> \<not> contains ''s3://'' ''s3:'' \<and> \<not> contains ''s3://'' ''/x''
   \<and> split_s3_path (''s3://'' @ ''s3:'' @ ''/'' @ ''/x'') = Inr (''x'', '''')
   \<and> split_s3_path (''s3://'' @ ''s3:'' @ ''/'' @ ''/x'') \<noteq> Inr (''s3:'', ''/x'')
   \<and> ''s3://'' @ ''x'' @ ''/'' @ '''' \<noteq> ''s3://'' @ ''s3:'' @ ''/'' @ ''/x''"
  by (simp add: split_s3_path_def split_def replace.simps split_fields.simps)

text \<open>
  C9, amended: for every S3 URI \<^verbatim>\<open>"s3://" + b + "/" + k\<close> where the bucket name \<open>b\<close>
  is non-empty and has no slash, neither \<open>b\<close> nor \<open>k\<close> contains \<^verbatim>\<open>s3://\<close>, and it is
  not the case that \<open>b\<close> ends with \<^verbatim>\<open>s3:\<close> while \<open>k\<close> begins with a slash,
  \<^verbatim>\<open>split_s3_path\<close> returns the pair \<open>(b, k)\<close>, and putting the returned pair together
  again as \<^verbatim>\<open>"s3://" + bucket + "/" + key\<close> gives the input back.
\<close>

theorem split_s3_path_round_trip:
  assumes "b \<noteq> []" and "CHR ''/'' \<notin> set b"
    and "\<not> contains ''s3://'' b" and "\<not> contains ''s3://'' k"
    and "\<not> (suffix ''s3:'' b \<and> prefix ''/'' k)"
  shows "split_s3_path (''s3://'' @ b @ ''/'' @ k) = Inr (b, k)
       \<and> (case split_s3_path (''s3://'' @ b @ ''/'' @ k) of
            Inl e \<Rightarrow> False
          | Inr (bucket, key) \<Rightarrow> ''s3://'' @ bucket @ ''/'' @ key = ''s3://'' @ b @ ''/'' @ k)"
proof -
  have "\<not> contains ''s3://'' (b @ ''/'' @ k)"
    using contains_scheme_straddle [OF assms(2), of k] assms(3,4,5) by blast
  from split_s3_path_clean [OF assms(2) this] show ?thesis by simp
qed

theorem split_s3_path_round_trip_witness:
  "split_s3_path ''s3://sagemaker-lab-1/output/notebooks/Candidate.ipynb''
     = Inr (''sagemaker-lab-1'', ''output/notebooks/Candidate.ipynb'')"
proof -
  have h1: "''sagemaker-lab-1'' \<noteq> []" by simp
  have h2: "CHR ''/'' \<notin> set ''sagemaker-lab-1''" by simp
  have h3: "\<not> contains ''s3://'' ''sagemaker-lab-1''" by simp
  have h4: "\<not> contains ''s3://'' ''output/notebooks/Candidate.ipynb''" by simp
  have h5: "\<not> (suffix ''s3:'' ''sagemaker-lab-1'' \<and> prefix ''/'' ''output/notebooks/Candidate.ipynb'')"
    by simp
  from split_s3_path_round_trip [OF h1 h2 h3 h4 h5] show ?thesis by simp
qed

text \<open>
  C1: the polling loop is left exactly when the status it observed last is one of
  \<^verbatim>\<open>Failed\<close>, \<^verbatim>\<open>Completed\<close>, \<^verbatim>\<open>Stopped\<close>. With such a status the loop is left at
  once, without a further call. From whatever status the loop starts, the status it is
  left with is terminal. And whenever cell 19 comes to its end (an exception of the
  status query is not an end of the loop but of the run), it has observed \<open>k + 1\<close>
  statuses, at the calls numbered \<open>clock s, \<dots>, clock s + k\<close>: the first \<open>k\<close> were not
  terminal, and for each of them the log holds one further status query and one sleep
  of 30 seconds (in the loop body the query comes first, the sleep after it, so the
  second query follows the first at once and the last sleep follows the terminal
  status); the last status is terminal and is the one the cell ends with.
\<close>

theorem polling_loop_exit:
  "(job_run_status \<in> set [''Failed'', ''Completed'', ''Stopped''] \<longrightarrow>
      while_loop aws name fuel describe_response job_run_status s
        = (Ok (describe_response, job_run_status), s))
   \<and> (while_loop aws name fuel response0 status0 s = (Ok (describe_response, job_run_status), s') \<longrightarrow>
        job_run_status \<in> set [''Failed'', ''Completed'', ''Stopped''])
   \<and> (cell_19 aws name fuel s = (Ok (describe_response, job_run_status), s') \<longrightarrow>
        (\<exists>k. s' = \<lparr>log = log s @ Call (DescribeAutoMLJob name) None
                        # concat (replicate k [Call (DescribeAutoMLJob name) None, Slept 30]),
                    clock = clock s + Suc k\<rparr>
           \<and> describe_auto_ml_job aws (clock s + k) name = Inr describe_response
           \<and> job_run_status = AutoMLJobStatus describe_response
           \<and> job_run_status \<in> set [''Failed'', ''Completed'', ''Stopped'']
           \<and> (\<forall>j<k. \<exists>r. describe_auto_ml_job aws (clock s + j) name = Inr r
                  \<and> AutoMLJobStatus r \<notin> set [''Failed'', ''Completed'', ''Stopped''])))"
proof (intro conjI impI)
  assume "job_run_status \<in> set [''Failed'', ''Completed'', ''Stopped'']"
  then show "while_loop aws name fuel describe_response job_run_status s
        = (Ok (describe_response, job_run_status), s)"
    by (rule while_loop_terminal)
next
  assume "while_loop aws name fuel response0 status0 s = (Ok (describe_response, job_run_status), s')"
  from while_loop_exit [OF this]
  show "job_run_status \<in> set [''Failed'', ''Completed'', ''Stopped'']" by blast
next
  assume "cell_19 aws name fuel s = (Ok (describe_response, job_run_status), s')"
  then show "\<exists>k. s' = \<lparr>log = log s @ Call (DescribeAutoMLJob name) None
                        # concat (replicate k [Call (DescribeAutoMLJob name) None, Slept 30]),
                    clock = clock s + Suc k\<rparr>
           \<and> describe_auto_ml_job aws (clock s + k) name = Inr describe_response
           \<and> job_run_status = AutoMLJobStatus describe_response
           \<and> job_run_status \<in> set [''Failed'', ''Completed'', ''Stopped'']
           \<and> (\<forall>j<k. \<exists>r. describe_auto_ml_job aws (clock s + j) name = Inr r
                  \<and> AutoMLJobStatus r \<notin> set [''Failed'', ''Completed'', ''Stopped''])"
    by (rule cell_19_exit)
qed

text \<open>
  C1, witness: in the example world the job is in progress for seven queries; cell 19
  ends with \<^verbatim>\<open>Completed\<close>.
\<close>

theorem polling_loop_exit_witness:
  "while_loop example_aws ''job'' 9 completed ''Completed'' start = (Ok (completed, ''Completed''), start)
   \<and> fst (cell_19 example_aws ''job'' 9 start) = Ok (completed, ''Completed'')
   \<and> (\<exists>k. snd (cell_19 example_aws ''job'' 9 start) =
          \<lparr>log = Call (DescribeAutoMLJob ''job'') None
                  # concat (replicate k [Call (DescribeAutoMLJob ''job'') None, Slept 30]),
           clock = Suc k\<rparr>)"
proof -
  have t: "''Completed'' \<in> set [''Failed'', ''Completed'', ''Stopped'']" by simp
  have run: "cell_19 example_aws ''job'' 9 start
      = (Ok (completed, ''Completed''), snd (cell_19 example_aws ''job'' 9 start))"
    by (simp add: cell_19_def seq_apply describe_apply example_aws_def start_def sleep_def
        return_def in_progress_def completed_def eval_nat_numeral)
  have a: "while_loop example_aws ''job'' 9 completed ''Completed'' start
      = (Ok (completed, ''Completed''), start)"
    by (rule polling_loop_exit [THEN conjunct1, rule_format, OF t])
  have b: "fst (cell_19 example_aws ''job'' 9 start) = Ok (completed, ''Completed'')"
    using arg_cong [OF run, of fst] by simp
  from polling_loop_exit [THEN conjunct2, THEN conjunct2, rule_format, OF run]
  obtain k where "snd (cell_19 example_aws ''job'' 9 start) =
          \<lparr>log = log start @ Call (DescribeAutoMLJob ''job'') None
                  # concat (replicate k [Call (DescribeAutoMLJob ''job'') None, Slept 30]),
           clock = clock start + Suc k\<rparr>"
    by blast
  then have c: "\<exists>k. snd (cell_19 example_aws ''job'' 9 start) =
          \<lparr>log = Call (DescribeAutoMLJob ''job'') None
                  # concat (replicate k [Call (DescribeAutoMLJob ''job'') None, Slept 30]),
           clock = Suc k\<rparr>"
    by (intro exI [of _ k]) (simp add: start_def)
  from a b c show ?thesis by blast
qed

text \<open>
  C6: whether the polling loop ends depends on the statuses the service returns and on
  nothing else. For a service whose status queries all succeed, with responses
  \<open>r 0, r 1, \<dots>\<close>: if a terminal status appears at some query, there is a number \<open>n\<close>
  such that cell 19 ends after \<open>n + 1\<close> queries, with that status, however many
  iterations it is allowed beyond \<open>n\<close>; if no terminal status ever appears, then for
  every bound \<open>fuel\<close> on the number of iterations the loop is still running after
  \<open>fuel\<close> iterations, having made \<open>fuel + 1\<close> queries: nothing on the client's side ends
  it.
\<close>

theorem polling_termination:
  assumes "\<forall>t. describe_auto_ml_job aws t name = Inr (r t)"
  shows "((\<exists>k. AutoMLJobStatus (r (clock s + k)) \<in> set [''Failed'', ''Completed'', ''Stopped'']) \<longrightarrow>
          (\<exists>n. \<forall>fuel\<ge>n. cell_19 aws name fuel s =
             (Ok (r (clock s + n), AutoMLJobStatus (r (clock s + n))),
              \<lparr>log = log s @ Call (DescribeAutoMLJob name) None
                       # concat (replicate n [Call (DescribeAutoMLJob name) None, Slept 30]),
               clock = clock s + Suc n\<rparr>)))
       \<and> ((\<forall>k. AutoMLJobStatus (r (clock s + k)) \<notin> set [''Failed'', ''Completed'', ''Stopped'']) \<longrightarrow>
          (\<forall>fuel. cell_19 aws name fuel s =
             (Running,
              \<lparr>log = log s @ Call (DescribeAutoMLJob name) None
                       # concat (replicate fuel [Call (DescribeAutoMLJob name) None, Slept 30]),
               clock = clock s + Suc fuel\<rparr>)))"
proof (intro conjI impI)
  let ?T = "set [''Failed'', ''Completed'', ''Stopped'']"
  let ?s0 = "\<lparr>log = log s @ [Call (DescribeAutoMLJob name) None], clock = Suc (clock s)\<rparr>"
  have first: "cell_19 aws name fuel s =
      while_loop aws name fuel (r (clock s)) (AutoMLJobStatus (r (clock s))) ?s0" for fuel
    using assms by (simp add: cell_19_def seq_apply describe_apply)
  {
    assume "\<exists>k. AutoMLJobStatus (r (clock s + k)) \<in> ?T"
    then obtain k0 where k0: "AutoMLJobStatus (r (clock s + k0)) \<in> ?T" by blast
    define n where "n = (LEAST k. AutoMLJobStatus (r (clock s + k)) \<in> ?T)"
    have hit: "AutoMLJobStatus (r (clock s + n)) \<in> ?T"
      unfolding n_def using k0 by (rule LeastI)
    have before: "\<forall>j<n. AutoMLJobStatus (r (clock s + j)) \<notin> ?T"
      unfolding n_def using not_less_Least by blast
    have "\<forall>fuel\<ge>n. cell_19 aws name fuel s =
             (Ok (r (clock s + n), AutoMLJobStatus (r (clock s + n))),
              \<lparr>log = log s @ Call (DescribeAutoMLJob name) None
                       # concat (replicate n [Call (DescribeAutoMLJob name) None, Slept 30]),
               clock = clock s + Suc n\<rparr>)"
    proof (intro allI impI)
      fix fuel assume "n \<le> fuel"
      from while_loop_reaches [OF assms before hit this, of ?s0]
      show "cell_19 aws name fuel s =
             (Ok (r (clock s + n), AutoMLJobStatus (r (clock s + n))),
              \<lparr>log = log s @ Call (DescribeAutoMLJob name) None
                       # concat (replicate n [Call (DescribeAutoMLJob name) None, Slept 30]),
               clock = clock s + Suc n\<rparr>)"
        unfolding first by simp
    qed
    then show "\<exists>n. \<forall>fuel\<ge>n. cell_19 aws name fuel s =
             (Ok (r (clock s + n), AutoMLJobStatus (r (clock s + n))),
              \<lparr>log = log s @ Call (DescribeAutoMLJob name) None
                       # concat (replicate n [Call (DescribeAutoMLJob name) None, Slept 30]),
               clock = clock s + Suc n\<rparr>)"
      by blast
  next
    assume never: "\<forall>k. AutoMLJobStatus (r (clock s + k)) \<notin> ?T"
    show "\<forall>fuel. cell_19 aws name fuel s =
             (Running,
              \<lparr>log = log s @ Call (DescribeAutoMLJob name) None
                       # concat (replicate fuel [Call (DescribeAutoMLJob name) None, Slept 30]),
               clock = clock s + Suc fuel\<rparr>)"
    proof
      fix fuel
      from while_loop_stuck [OF assms never, of ?s0 fuel]
      show "cell_19 aws name fuel s =
             (Running,
              \<lparr>log = log s @ Call (DescribeAutoMLJob name) None
                       # concat (replicate fuel [Call (DescribeAutoMLJob name) None, Slept 30]),
               clock = clock s + Suc fuel\<rparr>)"
        unfolding first by simp
    qed
  }
qed

text \<open>
  C6, witness: the example world, where the job completes, and the world where it stays
  in progress.
\<close>

theorem polling_termination_witness:
  "(\<exists>n. \<forall>fuel\<ge>n. fst (cell_19 example_aws ''job'' fuel start) = Ok (completed, ''Completed''))
   \<and> (\<forall>fuel. fst (cell_19 stuck_aws ''job'' fuel start) = Running)"
proof -
  have hit: "\<exists>k. AutoMLJobStatus ((\<lambda>t. if t < 7 then in_progress else completed) (clock start + k))
      \<in> set [''Failed'', ''Completed'', ''Stopped'']"
    by (intro exI [of _ 7]) (simp add: completed_def)
  have never: "\<forall>k. AutoMLJobStatus ((\<lambda>t. in_progress) (clock start + k))
      \<notin> set [''Failed'', ''Completed'', ''Stopped'']"
    by (simp add: in_progress_def)
  from polling_termination [OF example_describe, where name = "''job''" and s = start] hit
  obtain n where n: "\<forall>fuel\<ge>n. cell_19 example_aws ''job'' fuel start =
             (Ok ((if clock start + n < 7 then in_progress else completed),
                  AutoMLJobStatus (if clock start + n < 7 then in_progress else completed)),
              \<lparr>log = log start @ Call (DescribeAutoMLJob ''job'') None
                       # concat (replicate n [Call (DescribeAutoMLJob ''job'') None, Slept 30]),
               clock = clock start + Suc n\<rparr>)"
    by blast
  have "\<not> n < 7"
  proof
    assume "n < 7"
    with n have "cell_19 example_aws ''job'' n start =
        (Ok (in_progress, ''InProgress''),
              \<lparr>log = log start @ Call (DescribeAutoMLJob ''job'') None
                       # concat (replicate n [Call (DescribeAutoMLJob ''job'') None, Slept 30]),
               clock = clock start + Suc n\<rparr>)"
      by (simp add: start_def in_progress_def)
    from cell_19_exit [OF this] show False by simp
  qed
  with n have 1: "\<forall>fuel\<ge>n. fst (cell_19 example_aws ''job'' fuel start) = Ok (completed, ''Completed'')"
    by (simp add: start_def completed_def)
  from polling_termination [OF stuck_describe, where name = "''job''" and s = start] never
  have 2: "\<forall>fuel. fst (cell_19 stuck_aws ''job'' fuel start) = Running"
    by simp
  from 1 2 show ?thesis by blast
qed



text \<open>
  C10: the split is a function of the input rows. Cell 9 passes the fixed seed 200, so
  two runs on the same data set end with the same training split, testing split and
  testing split without target (or with the same exception), whatever the two runs
  differ in otherwise: the state of the run, the responses of the services, the clock,
  the entropy of the operating system. The one thing both runs must share is numpy's
  generator, a function of seed and length.
\<close>

theorem split_deterministic:
  assumes "permutation (py aws) = permutation (py aws')"
  shows "fst (cell_9 aws churn s) = fst (cell_9 aws' churn s')"
  using assms
  by (simp add: cell_9_def sample_def Let_def seq_apply lift_def return_def
      split: sum.splits)

text \<open>
  C10, witness: two worlds with different entropy and different services, and two
  different states.
\<close>

theorem split_deterministic_witness:
  "fst (cell_9 example_aws example_churn start)
     = fst (cell_9 (stuck_aws\<lparr>py := example_library\<lparr>os_entropy := 4711\<rparr>\<rparr>) example_churn
              \<lparr>log = [Slept 30], clock = 3\<rparr>)"
proof -
  have "permutation (py example_aws)
      = permutation (py (stuck_aws\<lparr>py := example_library\<lparr>os_entropy := 4711\<rparr>\<rparr>))"
    by (simp add: example_aws_def)
  then show ?thesis by (rule split_deterministic)
qed

text \<open>
  C7: no remote call of the notebook is retried, compensated or followed by anything
  when it fails. In every run of the notebook, for every number of loop iterations
  allowed: if the log holds a remote call that raised an exception, then this call is the
  last event of the log (no retry, no clean-up call, no later step), the outcome of the
  run is that exception, and no call before it had failed. The remote calls are the
  calls through the AWS clients; the download in cell 5 is a shell command, which raises
  nothing, and is not part of the model.
\<close>

theorem failure_stops_notebook:
  assumes "notebook aws churn fuel start = (outcome, s')"
    and "log s' = before @ Call c (Some e) # rest"
  shows "rest = [] \<and> outcome = Raise e \<and> (\<forall>ev \<in> set before. \<not> failed ev)"
proof -
  from notebook_fail_stop [of aws churn fuel start] assms(1)
  have "fail_stop outcome (log s')" by (simp add: start_def)
  from failure_is_last [OF this assms(2)] show ?thesis .
qed

text \<open>C7, witness: the service refuses to create the job; the run ends there.\<close>

theorem failure_stops_notebook_witness:
  "fst (notebook refusing_aws example_churn 3 start) = Raise (ClientError ''ResourceLimitExceeded'')
   \<and> filter failed (butlast (log (snd (notebook refusing_aws example_churn 3 start)))) = []"
proof -
  let ?run = "notebook refusing_aws example_churn 3 start"
  have run: "?run = (fst ?run, snd ?run)" by simp
  have log: "log (snd ?run) = butlast (log (snd ?run))
      @ Call (CreateAutoMLJob
               \<lparr>AutoMLJobName = ''automl-churn-02-10-00-00'',
                InputDataConfig =
                  [\<lparr>S3DataType = ''S3Prefix'',
                    S3Uri = ''s3://sagemaker-lab-1/sagemaker/DEMO-xgboost-churn/train'',
                    TargetAttributeName = ''Churn?''\<rparr>],
                S3OutputPath = ''s3://sagemaker-lab-1/sagemaker/DEMO-xgboost-churn/output'',
                MaxCandidates = 20, RoleArn = ''arn:aws:iam::1:role/lab''\<rparr>)
             (Some (ClientError ''ResourceLimitExceeded'')) # []"
    by code_simp
  from failure_stops_notebook [OF run log] show ?thesis by (simp add: filter_empty_conv)
qed



text \<open>
  C8: no run of the notebook calls delete-endpoint, delete-endpoint-config or
  delete-model (the cell that names them is a markdown cell). Hence every model, endpoint
  configuration and endpoint that a call of the run has created exists at the end of
  the log, and a run that ends with a value leaves a model, an endpoint configuration and
  an endpoint in existence.
\<close>

theorem no_teardown:
  assumes "notebook aws churn fuel start = (outcome, s')"
  shows "(\<forall>c \<in> set (calls (log s')). \<not> is_delete c)
    \<and> (\<forall>containers name role.
          Call (CreateModel containers name role) None \<in> set (log s') \<longrightarrow>
          Model name \<in> resources (log s'))
    \<and> (\<forall>name variants.
          Call (CreateEndpointConfig name variants) None \<in> set (log s') \<longrightarrow>
          EndpointConfig name \<in> resources (log s'))
    \<and> (\<forall>name config.
          Call (CreateEndpoint name config) None \<in> set (log s') \<longrightarrow>
          Endpoint name \<in> resources (log s'))
    \<and> (\<forall>x. outcome = Ok x \<longrightarrow>
          (\<exists>model_name epc_name ep_name.
             Model model_name \<in> resources (log s')
           \<and> EndpointConfig epc_name \<in> resources (log s')
           \<and> Endpoint ep_name \<in> resources (log s')))"
proof -
  from notebook_fail_stop [of aws churn fuel start] assms
  have nd: "\<forall>c \<in> set (calls (log s')). \<not> is_delete c" by (simp add: start_def)
  note created = resources_created [OF nd]
  have "\<exists>model_name epc_name ep_name.
             Model model_name \<in> resources (log s')
           \<and> EndpointConfig epc_name \<in> resources (log s')
           \<and> Endpoint ep_name \<in> resources (log s')" if "outcome = Ok x" for x
  proof -
    from assms that have "notebook aws churn fuel start = (Ok x, s')" by simp
    from notebook_created_on_success [OF this] created show ?thesis by blast
  qed
  with nd created show ?thesis by blast
qed

text \<open>C8, witness: the three resources of the run in the example world.\<close>

theorem no_teardown_witness:
  "\<not> is_delete (CreateEndpoint ''tuning-job-1-00702-10-00-00-ep'' ''tuning-job-1-00702-10-00-00-epc'')
   \<and> Model ''tuning-job-1-00702-10-00-00-model''
        \<in> resources (log (snd (notebook example_aws example_churn 5 start)))
   \<and> EndpointConfig ''tuning-job-1-00702-10-00-00-epc''
        \<in> resources (log (snd (notebook example_aws example_churn 5 start)))
   \<and> Endpoint ''tuning-job-1-00702-10-00-00-ep''
        \<in> resources (log (snd (notebook example_aws example_churn 5 start)))"
proof -
  let ?run = "notebook example_aws example_churn 5 start"
  have run: "?run = (fst ?run, snd ?run)" by simp
  have c: "CreateEndpoint ''tuning-job-1-00702-10-00-00-ep'' ''tuning-job-1-00702-10-00-00-epc''
      \<in> set (calls (log (snd ?run)))"
    by code_simp
  have m: "Call (CreateModel (InferenceContainers example_candidate)
             ''tuning-job-1-00702-10-00-00-model'' ''arn:aws:iam::1:role/lab'') None
      \<in> set (log (snd ?run))"
    by code_simp
  have e: "Call (CreateEndpointConfig ''tuning-job-1-00702-10-00-00-epc''
             (production_variants ''tuning-job-1-00702-10-00-00-model'')) None
      \<in> set (log (snd ?run))"
    by code_simp
  have p: "Call (CreateEndpoint ''tuning-job-1-00702-10-00-00-ep''
             ''tuning-job-1-00702-10-00-00-epc'') None
      \<in> set (log (snd ?run))"
    by code_simp
  from no_teardown [OF run] c m e p show ?thesis by blast
qed






end
